theory Spec2Isabelle
  imports Main
begin

section \<open>Data model: the three tables of \<^verbatim>\<open>initialize_database\<close>\<close>

text \<open>
  The tables are the ones created by the DDL in \<^verbatim>\<open>db_connection.py\<close>. A column that the
  DDL leaves nullable is an \<open>option\<close>; \<open>None\<close> is SQL NULL. Only the columns that the
  statements of \<^verbatim>\<open>app.py\<close> read or write are kept (Genre, ISBN, Description, Address,
  JoinDate, Status and the timestamps are never touched by the application). A date is a day
  number; \<^verbatim>\<open>CURRENT_DATE\<close> is a parameter \<open>today\<close> of every statement that uses it.
  MySQL INT values are modelled as unbounded integers: an out-of-range value is a statement
  error in the configured strict mode, and statement errors of that kind are part of the
  environment script below.
\<close>

type_synonym date = int

record book =
  BookID :: int
  Title :: string
  Author :: string
  PublishedYear :: "int option"
  AvailableCopies :: "int option"

record member =
  MemberID :: int
  Name :: string
  Email :: string
  PhoneNumber :: "string option"

record borrowing =
  BorrowID :: int
  BorrowMemberID :: int
  BorrowBookID :: int
  BorrowDate :: "date option"
  DueDate :: "date option"
  ReturnDate :: "date option"

text \<open>
  The database: the rows of each table in insertion order and the three AUTO\_INCREMENT
  counters. The counters advance on a successful insert.
\<close>

record db =
  Books :: "book list"
  Members :: "member list"
  Borrowing :: "borrowing list"
  next_book_id :: int
  next_member_id :: int
  next_borrow_id :: int

definition empty_db :: db where
  "empty_db = \<lparr>Books = [], Members = [], Borrowing = [],
     next_book_id = 1, next_member_id = 1, next_borrow_id = 1\<rparr>"

datatype db_error =
    PoolError
  | InterfaceError
  | OperationalError
  | IntegrityError
  | UnableToConnect

section \<open>The SQL statements of \<^verbatim>\<open>app.py\<close>\<close>

text \<open>
  A statement is a function from the database to an error or a result and the database
  after it. \<^verbatim>\<open>ORDER BY\<close> is left out: the callers modelled here use a result list as a
  set of options, as a count, or for its emptiness only. String comparison is equality.
\<close>

type_synonym 'a stmt = "db \<Rightarrow> db_error + ('a \<times> db)"

definition count_books :: "int stmt" where
  \<comment> \<open>\<^verbatim>\<open>SELECT COUNT(*) as count FROM Books\<close>, one row\<close>
  "count_books d = Inr (int (length (Books d)), d)"

definition count_members :: "int stmt" where
  \<comment> \<open>\<^verbatim>\<open>SELECT COUNT(*) as count FROM Members\<close>\<close>
  "count_members d = Inr (int (length (Members d)), d)"

definition count_open_borrowing :: "int stmt" where
  \<comment> \<open>\<^verbatim>\<open>SELECT COUNT(*) as count FROM Borrowing WHERE ReturnDate IS NULL\<close>\<close>
  "count_open_borrowing d =
     Inr (int (length (filter (\<lambda>r. ReturnDate r = None) (Borrowing d))), d)"

definition sql_sum :: "int option list \<Rightarrow> int option" where
  \<comment> \<open>SQL \<^verbatim>\<open>SUM\<close>: NULL values are skipped, and the sum of no value is NULL\<close>
  "sql_sum vs =
     (let ns = concat (map (\<lambda>v. case v of None \<Rightarrow> [] | Some n \<Rightarrow> [n]) vs)
      in if ns = [] then None else Some (sum_list ns))"

definition sum_available_copies :: "int option stmt" where
  \<comment> \<open>\<^verbatim>\<open>SELECT SUM(AvailableCopies) as count FROM Books\<close>\<close>
  "sum_available_copies d = Inr (sql_sum (map AvailableCopies (Books d)), d)"

definition select_book_by_title_author :: "string \<Rightarrow> string \<Rightarrow> int option stmt" where
  \<comment> \<open>\<^verbatim>\<open>SELECT BookID FROM Books WHERE Title = %s AND Author = %s\<close>, fetchone\<close>
  "select_book_by_title_author t a d =
     Inr (case filter (\<lambda>b. Title b = t \<and> Author b = a) (Books d) of
            [] \<Rightarrow> None | b # _ \<Rightarrow> Some (BookID b), d)"

definition insert_book :: "string \<Rightarrow> string \<Rightarrow> int \<Rightarrow> int \<Rightarrow> unit stmt" where
  \<comment> \<open>\<^verbatim>\<open>INSERT INTO Books (Title, Author, PublishedYear, AvailableCopies) VALUES (...)\<close>\<close>
  "insert_book t a year copies d =
     Inr ((), d\<lparr>Books := Books d @
                  [\<lparr>BookID = next_book_id d, Title = t, Author = a,
                    PublishedYear = Some year, AvailableCopies = Some copies\<rparr>],
                next_book_id := next_book_id d + 1\<rparr>)"

definition insert_member :: "string \<Rightarrow> string \<Rightarrow> string option \<Rightarrow> unit stmt" where
  \<comment> \<open>\<^verbatim>\<open>INSERT INTO Members (Name, Email, PhoneNumber) VALUES (...)\<close>; Email is UNIQUE\<close>
  "insert_member n e p d =
     (if e \<in> set (map Email (Members d)) then Inl IntegrityError
      else Inr ((), d\<lparr>Members := Members d @
                  [\<lparr>MemberID = next_member_id d, Name = n, Email = e, PhoneNumber = p\<rparr>],
                next_member_id := next_member_id d + 1\<rparr>))"

definition select_members :: "(int \<times> string) list stmt" where
  \<comment> \<open>\<^verbatim>\<open>SELECT MemberID, Name FROM Members ORDER BY Name\<close>\<close>
  "select_members d = Inr (map (\<lambda>m. (MemberID m, Name m)) (Members d), d)"

definition copies_positive :: "book \<Rightarrow> bool" where
  \<comment> \<open>\<^verbatim>\<open>AvailableCopies > 0\<close>; NULL does not satisfy a comparison\<close>
  "copies_positive b = (case AvailableCopies b of None \<Rightarrow> False | Some n \<Rightarrow> 0 < n)"

definition select_available_books :: "book list stmt" where
  \<comment> \<open>\<^verbatim>\<open>SELECT BookID, Title, Author, AvailableCopies FROM Books WHERE AvailableCopies > 0\<close>\<close>
  "select_available_books d = Inr (filter copies_positive (Books d), d)"

definition open_loan :: "int \<Rightarrow> int \<Rightarrow> borrowing \<Rightarrow> bool" where
  \<comment> \<open>\<^verbatim>\<open>MemberID = %s AND BookID = %s AND ReturnDate IS NULL\<close>\<close>
  "open_loan mid bid r =
     (BorrowMemberID r = mid \<and> BorrowBookID r = bid \<and> ReturnDate r = None)"

definition select_existing_borrow :: "int \<Rightarrow> int \<Rightarrow> int option stmt" where
  \<comment> \<open>\<^verbatim>\<open>SELECT BorrowID FROM Borrowing WHERE MemberID = %s AND BookID = %s
      AND ReturnDate IS NULL\<close>, fetchone\<close>
  "select_existing_borrow mid bid d =
     Inr (case filter (open_loan mid bid) (Borrowing d) of
            [] \<Rightarrow> None | r # _ \<Rightarrow> Some (BorrowID r), d)"

definition insert_borrowing :: "date \<Rightarrow> int \<Rightarrow> int \<Rightarrow> unit stmt" where
  \<comment> \<open>\<^verbatim>\<open>INSERT INTO Borrowing (MemberID, BookID, BorrowDate) VALUES (%s, %s, CURRENT_DATE)\<close>;
      both references are foreign keys\<close>
  "insert_borrowing today mid bid d =
     (if mid \<in> set (map MemberID (Members d)) \<and> bid \<in> set (map BookID (Books d))
      then Inr ((), d\<lparr>Borrowing := Borrowing d @
                  [\<lparr>BorrowID = next_borrow_id d, BorrowMemberID = mid, BorrowBookID = bid,
                    BorrowDate = Some today, DueDate = None, ReturnDate = None\<rparr>],
                next_borrow_id := next_borrow_id d + 1\<rparr>)
      else Inl IntegrityError)"

definition add_copies :: "int \<Rightarrow> int \<Rightarrow> book \<Rightarrow> book" where
  "add_copies k bid b =
     (if BookID b = bid
      then b\<lparr>AvailableCopies := map_option (\<lambda>n. n + k) (AvailableCopies b)\<rparr> else b)"

definition update_copies_minus_1 :: "int \<Rightarrow> unit stmt" where
  \<comment> \<open>\<^verbatim>\<open>UPDATE Books SET AvailableCopies = AvailableCopies - 1 WHERE BookID = %s\<close>\<close>
  "update_copies_minus_1 bid d = Inr ((), d\<lparr>Books := map (add_copies (- 1) bid) (Books d)\<rparr>)"

definition update_copies_plus_1 :: "int \<Rightarrow> unit stmt" where
  \<comment> \<open>\<^verbatim>\<open>UPDATE Books SET AvailableCopies = AvailableCopies + 1 WHERE BookID = %s\<close>\<close>
  "update_copies_plus_1 bid d = Inr ((), d\<lparr>Books := map (add_copies 1 bid) (Books d)\<rparr>)"

definition joined :: "db \<Rightarrow> borrowing \<Rightarrow> bool" where
  \<comment> \<open>the row survives \<^verbatim>\<open>JOIN Members ... JOIN Books ...\<close>\<close>
  "joined d r = (BorrowMemberID r \<in> set (map MemberID (Members d)) \<and>
                 BorrowBookID r \<in> set (map BookID (Books d)))"

definition select_borrowed_books :: "borrowing list stmt" where
  \<comment> \<open>the listing of the Return page: joined rows \<^verbatim>\<open>WHERE b.ReturnDate IS NULL\<close>\<close>
  "select_borrowed_books d =
     Inr (filter (\<lambda>r. ReturnDate r = None \<and> joined d r) (Borrowing d), d)"

definition select_book_of_borrow :: "int \<Rightarrow> int option stmt" where
  \<comment> \<open>\<^verbatim>\<open>SELECT BookID FROM Borrowing WHERE BorrowID = %s\<close>, fetchone\<close>
  "select_book_of_borrow rid d =
     Inr (case filter (\<lambda>r. BorrowID r = rid) (Borrowing d) of
            [] \<Rightarrow> None | r # _ \<Rightarrow> Some (BorrowBookID r), d)"

definition set_return_date :: "date \<Rightarrow> int \<Rightarrow> borrowing \<Rightarrow> borrowing" where
  "set_return_date today rid r =
     (if BorrowID r = rid then r\<lparr>ReturnDate := Some today\<rparr> else r)"

definition update_return_date :: "date \<Rightarrow> int \<Rightarrow> unit stmt" where
  \<comment> \<open>\<^verbatim>\<open>UPDATE Borrowing SET ReturnDate = CURRENT_DATE WHERE BorrowID = %s\<close>\<close>
  "update_return_date today rid d =
     Inr ((), d\<lparr>Borrowing := map (set_return_date today rid) (Borrowing d)\<rparr>)"

section \<open>The connection layer\<close>

text \<open>
  The driver and the server are the environment. What they do during one call of
  \<^verbatim>\<open>execute_query\<close> is a \<open>call_env\<close>: the outcome of each connection attempt in turn
  (an empty list, or a list that runs out, stands for an attempt that connects), an error
  raised inside the body before the commit takes effect, whether \<^verbatim>\<open>is_connected()\<close>
  answers true when the context manager exits, and an error raised by
  \<^verbatim>\<open>rollback()\<close>. The calls the code makes on the driver are recorded as a trace.
\<close>

datatype attempt = Connected | NotConnected | Raises db_error

record call_env =
  attempts :: "attempt list"
  body_fault :: "db_error option"
  connected_after :: bool
  rollback_fault :: "db_error option"

definition healthy :: call_env where
  "healthy = \<lparr>attempts = [], body_fault = None, connected_after = True,
     rollback_fault = None\<rparr>"

datatype connection = PooledConnection | DirectConnection

datatype event =
    PoolGet \<comment> \<open>\<^verbatim>\<open>self.connection_pool.get_connection()\<close>\<close>
  | DirectConnect \<comment> \<open>\<^verbatim>\<open>mysql.connector.connect(...)\<close>\<close>
  | Sleep nat \<comment> \<open>\<^verbatim>\<open>time.sleep(retry_delay)\<close>, in seconds\<close>
  | Execute
  | Commit
  | Rollback
  | Close
  | UiError \<comment> \<open>\<^verbatim>\<open>st.error(...)\<close>\<close>

definition max_retries :: nat where
  "max_retries = 3"

definition next_attempt :: "attempt list \<Rightarrow> attempt" where
  "next_attempt outs = (case outs of [] \<Rightarrow> Connected | x # _ \<Rightarrow> x)"

definition connect_event :: "bool \<Rightarrow> event" where
  "connect_event pool = (if pool then PoolGet else DirectConnect)"

definition connection_of :: "bool \<Rightarrow> connection" where
  "connection_of pool = (if pool then PooledConnection else DirectConnection)"

text \<open>
  \<^verbatim>\<open>DatabaseManager.get_connection\<close>: the loop \<^verbatim>\<open>for attempt in range(max_retries)\<close>
  from \<open>attempt\<close> on, with the current \<open>retry_delay\<close>. An attempt that yields a connection
  whose \<^verbatim>\<open>is_connected()\<close> is false raises nothing: the loop goes on without sleeping.
  When the loop ends without a return, the final \<^verbatim>\<open>raise Error(...)\<close> is
  \<open>UnableToConnect\<close>.
\<close>

function get_connection_from ::
  "bool \<Rightarrow> nat \<Rightarrow> nat \<Rightarrow> attempt list \<Rightarrow> (db_error + connection) \<times> event list" where
  "get_connection_from pool attempt retry_delay outs =
     (if attempt < max_retries then
        (case next_attempt outs of
           Connected \<Rightarrow> (Inr (connection_of pool), [connect_event pool])
         | NotConnected \<Rightarrow>
             (let (r, evs) = get_connection_from pool (attempt + 1) retry_delay (tl outs)
              in (r, connect_event pool # evs))
         | Raises e \<Rightarrow>
             (if attempt < max_retries - 1 then
                (let (r, evs) = get_connection_from pool (attempt + 1) (retry_delay * 2) (tl outs)
                 in (r, connect_event pool # Sleep retry_delay # evs))
              else (Inl e, [connect_event pool])))
      else (Inl UnableToConnect, []))"
  by pat_completeness auto
termination
  by (relation "measure (\<lambda>(pool, attempt, retry_delay, outs). max_retries - attempt)") auto

declare get_connection_from.simps [simp del]

definition get_connection :: "bool \<Rightarrow> attempt list \<Rightarrow> (db_error + connection) \<times> event list" where
  \<comment> \<open>\<^verbatim>\<open>max_retries = 3; retry_delay = 1\<close>\<close>
  "get_connection pool outs = get_connection_from pool 0 1 outs"

text \<open>
  The world of the application: the database, the environment script (one \<open>call_env\<close> per
  call of \<^verbatim>\<open>execute_query\<close>, \<open>healthy\<close> once the script is used up), whether
  \<^verbatim>\<open>db_manager.connection_pool\<close> is set, and the trace.
\<close>

record world =
  database :: db
  env :: "call_env list"
  has_pool :: bool
  trace :: "event list"

definition next_env :: "world \<Rightarrow> call_env" where
  "next_env w = (case env w of [] \<Rightarrow> healthy | ce # _ \<Rightarrow> ce)"

definition run_body :: "call_env \<Rightarrow> 'a stmt \<Rightarrow> db \<Rightarrow> db_error + ('a \<times> db)" where
  \<comment> \<open>\<^verbatim>\<open>cursor.execute(query, params)\<close> and what follows it up to the commit: the
      environment's error, else the statement's own result\<close>
  "run_body ce stmt d = (case body_fault ce of Some e \<Rightarrow> Inl e | None \<Rightarrow> stmt d)"

text \<open>
  \<^verbatim>\<open>DatabaseManager.execute_query\<close> inside \<^verbatim>\<open>get_connection_context\<close>. On an error of
  the body the handler calls \<^verbatim>\<open>rollback()\<close> and re-raises (the error of the rollback if
  that raises); the \<^verbatim>\<open>finally\<close> clause closes the connection if it is still connected.
  With \<open>fetch\<close> nothing is committed. The row count returned for a write is not modelled:
  the result is the statement's.
\<close>

definition close_if_connected :: "call_env \<Rightarrow> event list" where
  "close_if_connected ce = (if connected_after ce then [Close] else [])"

definition manager_execute_query :: "'a stmt \<Rightarrow> bool \<Rightarrow> world \<Rightarrow> (db_error + 'a) \<times> world" where
  "manager_execute_query stmt fetch w =
     (let ce = next_env w; w1 = w\<lparr>env := tl (env w)\<rparr>
      in case get_connection (has_pool w) (attempts ce) of
           (Inl e, evs) \<Rightarrow> (Inl e, w1\<lparr>trace := trace w @ evs\<rparr>)
         | (Inr c, evs) \<Rightarrow>
             (case run_body ce stmt (database w) of
                Inl e \<Rightarrow>
                  (Inl (case rollback_fault ce of None \<Rightarrow> e | Some e' \<Rightarrow> e'),
                   w1\<lparr>trace := trace w @ evs @ [Execute, Rollback] @ close_if_connected ce\<rparr>)
              | Inr (res, d') \<Rightarrow>
                  (if fetch
                   then (Inr res,
                         w1\<lparr>trace := trace w @ evs @ [Execute] @ close_if_connected ce\<rparr>)
                   else (Inr res,
                         w1\<lparr>database := d',
                            trace := trace w @ evs @ [Execute, Commit] @ close_if_connected ce\<rparr>))))"

text \<open>
  \<^verbatim>\<open>get_connection\<close> and \<^verbatim>\<open>execute_query\<close> of \<^verbatim>\<open>app.py\<close>, the ones every page uses.
  \<^verbatim>\<open>get_connection\<close> turns an exception into \<^verbatim>\<open>None\<close> after \<^verbatim>\<open>st.error\<close>.
  \<^verbatim>\<open>execute_query\<close> closes the connection at the end of the \<^verbatim>\<open>try\<close> body; its handler
  is \<^verbatim>\<open>st.error(...); return None\<close>. The Python result of a write is \<^verbatim>\<open>True\<close>; here it
  is \<open>Some\<close> of the statement's result, which the callers test for presence only. With
  \<^verbatim>\<open>fetch_all=False\<close> the statement's result is itself an option, the fetched row.
\<close>

definition app_get_connection :: "bool \<Rightarrow> attempt list \<Rightarrow> connection option \<times> event list" where
  "app_get_connection pool outs =
     (case get_connection pool outs of
        (Inr c, evs) \<Rightarrow> (Some c, evs)
      | (Inl e, evs) \<Rightarrow> (None, evs @ [UiError]))"

definition execute_query :: "'a stmt \<Rightarrow> bool \<Rightarrow> world \<Rightarrow> 'a option \<times> world" where
  "execute_query stmt fetch w =
     (let ce = next_env w; w1 = w\<lparr>env := tl (env w)\<rparr>
      in case app_get_connection (has_pool w) (attempts ce) of
           (None, evs) \<Rightarrow> (None, w1\<lparr>trace := trace w @ evs\<rparr>)
         | (Some c, evs) \<Rightarrow>
             (case run_body ce stmt (database w) of
                Inl e \<Rightarrow> (None, w1\<lparr>trace := trace w @ evs @ [Execute, UiError]\<rparr>)
              | Inr (res, d') \<Rightarrow>
                  (if fetch
                   then (Some res, w1\<lparr>trace := trace w @ evs @ [Execute, Close]\<rparr>)
                   else (Some res,
                         w1\<lparr>database := d',
                            trace := trace w @ evs @ [Execute, Commit, Close]\<rparr>))))"

section \<open>The pages of \<^verbatim>\<open>app.py\<close>\<close>

text \<open>
  Each page is one run of the script with its button pressed; it returns the message shown
  last and the world after the run. A select box yields one of the options it was given:
  the user's request is an id, and a request for an id that is not among the options cannot
  be submitted, which is modelled as no selection. (The options are keyed by label in the
  source; two rows with the same label would leave only one of them selectable, so the model
  admits at least the requests the page admits.) The Python test \<^verbatim>\<open>if x:\<close> on an id
  is \<open>x \<noteq> 0\<close>, on a list is non-emptiness, and on a fetched row or \<^verbatim>\<open>None\<close> is being a row.
\<close>

datatype ui_msg =
    BookAdded
  | BookExists
  | AddBookFailed
  | RequiredFields
  | MemberAdded
  | InvalidEmail
  | AddMemberFailed
  | BorrowSuccess
  | AlreadyBorrowed
  | FailedUpdateAvailability
  | FailedProcessBorrowing
  | SelectBoth
  | ReturnSuccess
  | FailedProcessReturn
  | NoBorrowedBooks
  | NoMessage

definition selectbox :: "int list \<Rightarrow> int \<Rightarrow> int option" where
  "selectbox options choice = (if choice \<in> set options then Some choice else None)"

record stats =
  total_books :: int
  total_members :: int
  borrowed_books :: int
  available_copies :: int

definition get_dashboard_stats :: "world \<Rightarrow> stats \<times> world" where
  "get_dashboard_stats w0 =
     (let (r1, w1) = execute_query count_books True w0;
          (r2, w2) = execute_query count_members True w1;
          (r3, w3) = execute_query count_open_borrowing True w2;
          (r4, w4) = execute_query sum_available_copies True w3
      in (\<lparr>total_books = (case r1 of Some c \<Rightarrow> c | None \<Rightarrow> 0),
           total_members = (case r2 of Some c \<Rightarrow> c | None \<Rightarrow> 0),
           borrowed_books = (case r3 of Some c \<Rightarrow> c | None \<Rightarrow> 0),
           available_copies = (case r4 of Some (Some c) \<Rightarrow> c | _ \<Rightarrow> 0)\<rparr>, w4))"

definition add_book_page :: "string \<Rightarrow> string \<Rightarrow> int \<Rightarrow> int \<Rightarrow> world \<Rightarrow> ui_msg \<times> world" where
  "add_book_page title author year copies w =
     (if title \<noteq> [] \<and> author \<noteq> [] then
        (let (existing_book, w1) =
               execute_query (select_book_by_title_author title author) True w
         in case existing_book of
              Some (Some _) \<Rightarrow> (BookExists, w1)
            | _ \<Rightarrow>
                (let (r, w2) = execute_query (insert_book title author year copies) False w1
                 in case r of Some _ \<Rightarrow> (BookAdded, w2) | None \<Rightarrow> (AddBookFailed, w2)))
      else (RequiredFields, w))"

definition add_member_page :: "string \<Rightarrow> string \<Rightarrow> string \<Rightarrow> world \<Rightarrow> ui_msg \<times> world" where
  "add_member_page name email phone w =
     (if name \<noteq> [] \<and> email \<noteq> [] then
        (if CHR ''@'' \<notin> set email \<or> CHR ''.'' \<notin> set email then (InvalidEmail, w)
         else
           (let (r, w1) =
                  execute_query
                    (insert_member name email (if phone \<noteq> [] then Some phone else None))
                    False w
            in case r of Some _ \<Rightarrow> (MemberAdded, w1) | None \<Rightarrow> (AddMemberFailed, w1)))
      else (RequiredFields, w))"

text \<open>The handler of the Borrow button, lines 327 to 351, for the ids the page selected.\<close>

definition borrow_button :: "int option \<Rightarrow> int option \<Rightarrow> date \<Rightarrow> world \<Rightarrow> ui_msg \<times> world" where
  "borrow_button member_id book_id today w =
     (case (member_id, book_id) of
        (Some mid, Some bid) \<Rightarrow>
          (if mid \<noteq> 0 \<and> bid \<noteq> 0 then
             (let (existing_borrow, w1) =
                    execute_query (select_existing_borrow mid bid) True w
              in case existing_borrow of
                   Some (Some _) \<Rightarrow> (AlreadyBorrowed, w1)
                 | _ \<Rightarrow>
                     (let (r1, w2) = execute_query (insert_borrowing today mid bid) False w1
                      in case r1 of
                           None \<Rightarrow> (FailedProcessBorrowing, w2)
                         | Some _ \<Rightarrow>
                             (let (r2, w3) =
                                    execute_query (update_copies_minus_1 bid) False w2
                              in case r2 of
                                   None \<Rightarrow> (FailedUpdateAvailability, w3)
                                 | Some _ \<Rightarrow> (BorrowSuccess, w3))))
           else (SelectBoth, w))
      | _ \<Rightarrow> (SelectBoth, w))"

text \<open>
  The Borrow page: the member options are all members, the book options are the books with
  \<^verbatim>\<open>AvailableCopies > 0\<close>; an empty or failed listing leaves the id \<^verbatim>\<open>None\<close>.
\<close>

definition borrow_page :: "int \<Rightarrow> int \<Rightarrow> date \<Rightarrow> world \<Rightarrow> ui_msg \<times> world" where
  "borrow_page member_choice book_choice today w0 =
     (let (members, w1) = execute_query select_members True w0;
          member_id = (case members of
                         Some (m # ms) \<Rightarrow> selectbox (map fst (m # ms)) member_choice
                       | _ \<Rightarrow> None);
          (books, w2) = execute_query select_available_books True w1;
          book_id = (case books of
                       Some (b # bs) \<Rightarrow> selectbox (map BookID (b # bs)) book_choice
                     | _ \<Rightarrow> None)
      in borrow_button member_id book_id today w2)"

text \<open>
  The handler of the Return button, lines 395 to 416. The final \<^verbatim>\<open>st.rerun()\<close> renders
  the page again, which only reads.
\<close>

definition return_button :: "int option \<Rightarrow> date \<Rightarrow> world \<Rightarrow> ui_msg \<times> world" where
  "return_button borrow_id today w =
     (case borrow_id of
        None \<Rightarrow> (NoMessage, w)
      | Some rid \<Rightarrow>
          (if rid \<noteq> 0 then
             (let (book_info, w1) = execute_query (select_book_of_borrow rid) True w
              in case book_info of
                   Some (Some bid) \<Rightarrow>
                     (let (r1, w2) = execute_query (update_return_date today rid) False w1
                      in case r1 of
                           None \<Rightarrow> (FailedProcessReturn, w2)
                         | Some _ \<Rightarrow>
                             (let (r2, w3) =
                                    execute_query (update_copies_plus_1 bid) False w2
                              in case r2 of
                                   None \<Rightarrow> (FailedUpdateAvailability, w3)
                                 | Some _ \<Rightarrow> (ReturnSuccess, w3)))
                 | _ \<Rightarrow> (FailedProcessReturn, w1))
           else (NoMessage, w)))"

text \<open>The Return page: the options are the open, joined borrowing records.\<close>

definition return_page :: "int \<Rightarrow> date \<Rightarrow> world \<Rightarrow> ui_msg \<times> world" where
  "return_page choice today w0 =
     (let (borrowed, w1) = execute_query select_borrowed_books True w0
      in case borrowed of
           Some (r # rs) \<Rightarrow> return_button (selectbox (map BorrowID (r # rs)) choice) today w1
         | _ \<Rightarrow> (NoBorrowedBooks, w1))"

section \<open>Reachable databases\<close>

text \<open>
  A run starts a page on a database with some environment script. The reachable databases
  are those obtained from the empty database by the four pages that write, under any
  script. The Add Book form bounds its numbers by
  \<^verbatim>\<open>number_input(min_value=1900, max_value=2030)\<close> and \<^verbatim>\<open>number_input(min_value=1)\<close>.
\<close>

definition start :: "db \<Rightarrow> call_env list \<Rightarrow> world" where
  "start d script = \<lparr>database = d, env = script, has_pool = True, trace = []\<rparr>"

definition after :: "'a \<times> world \<Rightarrow> db" where
  "after out = database (snd out)"

inductive reachable :: "db \<Rightarrow> bool" where
  initial: "reachable empty_db"
| add_book:
    "reachable d \<Longrightarrow> 1900 \<le> year \<Longrightarrow> year \<le> 2030 \<Longrightarrow> 1 \<le> copies \<Longrightarrow>
     reachable (after (add_book_page title author year copies (start d script)))"
| add_member:
    "reachable d \<Longrightarrow> reachable (after (add_member_page name email phone (start d script)))"
| borrow:
    "reachable d \<Longrightarrow> reachable (after (borrow_page mid bid today (start d script)))"
| return:
    "reachable d \<Longrightarrow> reachable (after (return_page rid today (start d script)))"

section \<open>Observations on traces, environments and tables\<close>



definition commits :: "event list \<Rightarrow> nat" where
  "commits evs = length (filter (\<lambda>e. e = Commit) evs)"

definition succeeds :: "bool \<Rightarrow> call_env \<Rightarrow> bool" where
  \<comment> \<open>the environment lets a call get its connection and run its body without an error\<close>
  "succeeds pool ce =
     (body_fault ce = None \<and>
      (case fst (get_connection pool (attempts ce)) of Inl _ \<Rightarrow> False | Inr _ \<Rightarrow> True))"

definition all_succeed :: "world \<Rightarrow> bool" where
  \<comment> \<open>no call of the run fails: every entry of the script succeeds\<close>
  "all_succeed w = list_all (succeeds (has_pool w)) (env w)"

definition available_copies_of :: "db \<Rightarrow> int \<Rightarrow> int option list" where
  \<comment> \<open>the AvailableCopies of the rows with this BookID\<close>
  "available_copies_of d bid = map AvailableCopies (filter (\<lambda>b. BookID b = bid) (Books d))"

definition db_inv :: "db \<Rightarrow> bool" where
  \<comment> \<open>the primary keys are unique and below their counters, and every copy count is a
      number that is not negative\<close>
  "db_inv d =
     (distinct (map BookID (Books d)) \<and>
      (\<forall>b \<in> set (Books d). BookID b < next_book_id d \<and>
         (\<exists>n. AvailableCopies b = Some n \<and> 0 \<le> n)) \<and>
      distinct (map BorrowID (Borrowing d)) \<and>
      (\<forall>r \<in> set (Borrowing d). BorrowID r < next_borrow_id d))"

definition single_open_loans :: "db \<Rightarrow> bool" where
  \<comment> \<open>at most one borrowing record with NULL ReturnDate for every member and book\<close>
  "single_open_loans d =
     (\<forall>mid bid. length (filter (open_loan mid bid) (Borrowing d)) \<le> 1)"

text \<open>The databases reached by runs in which no call of \<^verbatim>\<open>execute_query\<close> fails.\<close>

inductive reachable_without_fault :: "db \<Rightarrow> bool" where
  initial: "reachable_without_fault empty_db"
| add_book:
    "reachable_without_fault d \<Longrightarrow> 1900 \<le> year \<Longrightarrow> year \<le> 2030 \<Longrightarrow> 1 \<le> copies \<Longrightarrow>
     all_succeed (start d script) \<Longrightarrow>
     reachable_without_fault (after (add_book_page title author year copies (start d script)))"
| add_member:
    "reachable_without_fault d \<Longrightarrow> all_succeed (start d script) \<Longrightarrow>
     reachable_without_fault (after (add_member_page name email phone (start d script)))"
| borrow:
    "reachable_without_fault d \<Longrightarrow> all_succeed (start d script) \<Longrightarrow>
     reachable_without_fault (after (borrow_page mid bid today (start d script)))"
| return:
    "reachable_without_fault d \<Longrightarrow> all_succeed (start d script) \<Longrightarrow>
     reachable_without_fault (after (return_page rid today (start d script)))"

section \<open>Example sessions\<close>

text \<open>
  The session used as the concrete input of most examples: one member, the book of the
  specification's scenario with 4 copies, a loan of it on day 100 and its return on day
  107.
\<close>

definition demo_db1 :: db where
  "demo_db1 = after (add_member_page ''Ann'' ''ann@example.org'' [] (start empty_db []))"

definition demo_db2 :: db where
  "demo_db2 = after (add_book_page ''1984'' ''Orwell'' 1949 4 (start demo_db1 []))"

definition demo_db3 :: db where
  "demo_db3 = after (borrow_page 1 1 100 (start demo_db2 []))"

definition demo_db4 :: db where
  "demo_db4 = after (return_page 1 107 (start demo_db3 []))"

text \<open>
  The same member and book with a single copy, which is lent; then a second member.
\<close>

definition demo_single_copy :: db where
  "demo_single_copy = after (add_book_page ''1984'' ''Orwell'' 1949 1 (start demo_db1 []))"

definition demo_sold_out :: db where
  "demo_sold_out = after (borrow_page 1 1 100 (start demo_single_copy []))"

definition demo_second_member :: db where
  "demo_second_member =
     after (add_member_page ''Bob'' ''bob@example.org'' [] (start demo_sold_out []))"

text \<open>
  A second Borrow run for the member and the book of the first session, in which the
  third call of \<^verbatim>\<open>execute_query\<close>, the SELECT that looks for an open loan of the pair,
  raises a database error and every other call succeeds.
\<close>

definition check_fails :: "call_env list" where
  "check_fails = [healthy, healthy, healthy\<lparr>body_fault := Some OperationalError\<rparr>]"

definition demo_db_twice :: db where
  "demo_db_twice = after (borrow_page 1 1 101 (start demo_db3 check_fails))"

text \<open>A call whose statement raises: the body fault of the only entry of the script.\<close>

definition stmt_fails :: "call_env list" where
  "stmt_fails = [healthy\<lparr>body_fault := Some OperationalError\<rparr>]"

section \<open>Connection acquisition\<close>

lemma get_connection_from_3:
  "get_connection_from pool (Suc (Suc (Suc 0))) dl outs = (Inl UnableToConnect, [])"
  by (simp add: get_connection_from.simps max_retries_def)

lemma get_connection_from_2:
  "get_connection_from pool (Suc (Suc 0)) dl outs =
     (case next_attempt outs of
        Connected \<Rightarrow> (Inr (connection_of pool), [connect_event pool])
      | NotConnected \<Rightarrow> (Inl UnableToConnect, [connect_event pool])
      | Raises e \<Rightarrow> (Inl e, [connect_event pool]))"
  by (subst get_connection_from.simps)
     (simp add: max_retries_def get_connection_from_3 split: attempt.splits)

lemma get_connection_from_1:
  "get_connection_from pool (Suc 0) dl outs =
     (case next_attempt outs of
        Connected \<Rightarrow> (Inr (connection_of pool), [connect_event pool])
      | NotConnected \<Rightarrow>
          (let (r, evs) = get_connection_from pool (Suc (Suc 0)) dl (tl outs)
           in (r, connect_event pool # evs))
      | Raises e \<Rightarrow>
          (let (r, evs) = get_connection_from pool (Suc (Suc 0)) (dl * 2) (tl outs)
           in (r, connect_event pool # Sleep dl # evs)))"
  by (subst get_connection_from.simps)
     (simp add: max_retries_def split: attempt.splits)

lemma get_connection_from_0:
  "get_connection_from pool 0 dl outs =
     (case next_attempt outs of
        Connected \<Rightarrow> (Inr (connection_of pool), [connect_event pool])
      | NotConnected \<Rightarrow>
          (let (r, evs) = get_connection_from pool (Suc 0) dl (tl outs)
           in (r, connect_event pool # evs))
      | Raises e \<Rightarrow>
          (let (r, evs) = get_connection_from pool (Suc 0) (dl * 2) (tl outs)
           in (r, connect_event pool # Sleep dl # evs)))"
  by (subst get_connection_from.simps)
     (simp add: max_retries_def split: attempt.splits)

lemmas get_connection_unfold =
  get_connection_def get_connection_from_0 get_connection_from_1 get_connection_from_2
  next_attempt_def


section \<open>What one call of \<^verbatim>\<open>execute_query\<close> does to the world\<close>

lemma execute_query_env [simp]: "env (snd (execute_query stmt fetch w)) = tl (env w)"
  by (simp add: execute_query_def Let_def split: prod.splits option.splits sum.splits)

lemma execute_query_has_pool [simp]:
  "has_pool (snd (execute_query stmt fetch w)) = has_pool w"
  by (simp add: execute_query_def Let_def split: prod.splits option.splits sum.splits)

lemma execute_query_read [simp]: "database (snd (execute_query stmt True w)) = database w"
  by (simp add: execute_query_def Let_def split: prod.splits option.splits sum.splits)

lemma execute_query_None:
  "execute_query stmt fetch w = (None, w') \<Longrightarrow> database w' = database w"
  by (auto simp: execute_query_def Let_def split: prod.splits option.splits sum.splits if_splits)

lemma execute_query_Some:
  "execute_query stmt fetch w = (Some res, w') \<Longrightarrow>
     \<exists>d'. stmt (database w) = Inr (res, d') \<and> database w' = (if fetch then database w else d')"
  by (auto simp: execute_query_def run_body_def Let_def
        split: prod.splits option.splits sum.splits if_splits)

lemma succeeds_healthy: "succeeds pool healthy"
  by (simp add: succeeds_def healthy_def get_connection_unfold)

lemma all_succeed_next: "all_succeed w \<Longrightarrow> succeeds (has_pool w) (next_env w)"
  by (cases "env w") (simp_all add: all_succeed_def next_env_def succeeds_healthy)

lemma all_succeed_step: "all_succeed w \<Longrightarrow> all_succeed (snd (execute_query stmt fetch w))"
  by (cases "env w") (simp_all add: all_succeed_def)

lemma execute_query_succeeds:
  assumes "succeeds (has_pool w) (next_env w)" and "stmt (database w) = Inr (res, d')"
  shows "fst (execute_query stmt fetch w) = Some res"
    and "database (snd (execute_query stmt fetch w)) = (if fetch then database w else d')"
  using assms
  by (auto simp: execute_query_def app_get_connection_def succeeds_def run_body_def Let_def
        split: prod.splits option.splits sum.splits)


lemma execute_query_read_eq:
  "execute_query stmt True w = (r, w') \<Longrightarrow> database w' = database w"
  using execute_query_read [of stmt w] by simp

lemma execute_query_write_cases:
  assumes "execute_query stmt False w = (r, w')"
  shows "(r = None \<and> database w' = database w) \<or>
         (\<exists>res. r = Some res \<and> stmt (database w) = Inr (res, database w'))"
proof (cases r)
  case None
  with assms show ?thesis by (auto dest: execute_query_None)
next
  case (Some res)
  with assms show ?thesis by (auto dest: execute_query_Some)
qed

subsection \<open>Outcomes of the two handlers\<close>

lemma borrow_button_outcome:
  assumes "borrow_button (Some mid) (Some bid) today w = (msg, w')"
  shows "(msg = BorrowSuccess \<and>
            (\<exists>d1. insert_borrowing today mid bid (database w) = Inr ((), d1) \<and>
                  update_copies_minus_1 bid d1 = Inr ((), database w'))) \<or>
         (msg = FailedUpdateAvailability \<and>
            insert_borrowing today mid bid (database w) = Inr ((), database w')) \<or>
         ((msg = AlreadyBorrowed \<or> msg = FailedProcessBorrowing \<or> msg = SelectBoth) \<and>
            database w' = database w)"
proof (cases "mid \<noteq> 0 \<and> bid \<noteq> 0")
  case False
  with assms show ?thesis by (auto simp: borrow_button_def)
next
  case True
  obtain e w1 where q1: "execute_query (select_existing_borrow mid bid) True w = (e, w1)"
    by (cases "execute_query (select_existing_borrow mid bid) True w")
  have d1: "database w1 = database w" using q1 by (rule execute_query_read_eq)
  show ?thesis
  proof (cases "\<exists>x. e = Some (Some x)")
    case True
    with assms \<open>mid \<noteq> 0 \<and> bid \<noteq> 0\<close> q1 d1 show ?thesis
      by (auto simp: borrow_button_def)
  next
    case no_loan: False
    obtain r1 w2 where q2: "execute_query (insert_borrowing today mid bid) False w1 = (r1, w2)"
      by (cases "execute_query (insert_borrowing today mid bid) False w1")
    obtain r2 w3 where q3: "execute_query (update_copies_minus_1 bid) False w2 = (r2, w3)"
      by (cases "execute_query (update_copies_minus_1 bid) False w2")
    from no_loan have e_cases: "e = None \<or> e = Some None"
      by (cases e) auto
    show ?thesis
    proof (cases r1)
      case None
      with assms True q1 q2 e_cases have "msg = FailedProcessBorrowing" "w' = w2"
        by (auto simp: borrow_button_def)
      moreover from q2 None have "database w2 = database w1" by (auto dest: execute_query_None)
      ultimately show ?thesis using d1 by simp
    next
      case (Some u)
      with q2 have ins: "insert_borrowing today mid bid (database w) = Inr ((), database w2)"
        using d1 by (auto dest: execute_query_Some)
      show ?thesis
      proof (cases r2)
        case None
        with assms True q1 q2 q3 Some e_cases have "msg = FailedUpdateAvailability" "w' = w3"
          by (auto simp: borrow_button_def)
        moreover from q3 None have "database w3 = database w2"
          by (auto dest: execute_query_None)
        ultimately show ?thesis using ins by simp
      next
        case (Some u2)
        with assms True q1 q2 q3 \<open>r1 = Some u\<close> e_cases have "msg = BorrowSuccess" "w' = w3"
          by (auto simp: borrow_button_def)
        moreover from q3 Some have "update_copies_minus_1 bid (database w2) = Inr ((), database w3)"
          by (auto dest: execute_query_Some)
        ultimately show ?thesis using ins by blast
      qed
    qed
  qed
qed


lemma execute_query_fetch_cases:
  assumes "execute_query stmt True w = (r, w')"
  shows "database w' = database w \<and>
         (r = None \<or> (\<exists>res d'. r = Some res \<and> stmt (database w) = Inr (res, d')))"
proof (cases r)
  case None
  with assms show ?thesis by (auto dest: execute_query_read_eq)
next
  case (Some res)
  with assms show ?thesis by (auto dest: execute_query_Some execute_query_read_eq)
qed

lemma return_button_outcome:
  assumes "return_button (Some rid) today w = (msg, w')"
  shows "(msg = ReturnSuccess \<and>
            (\<exists>bid d0 d1. select_book_of_borrow rid (database w) = Inr (Some bid, d0) \<and>
                  update_return_date today rid (database w) = Inr ((), d1) \<and>
                  update_copies_plus_1 bid d1 = Inr ((), database w'))) \<or>
         (msg = FailedUpdateAvailability \<and>
            update_return_date today rid (database w) = Inr ((), database w')) \<or>
         ((msg = FailedProcessReturn \<or> msg = NoMessage) \<and> database w' = database w)"
  using assms
  by (auto simp: return_button_def split: prod.splits option.splits if_splits
        dest!: execute_query_fetch_cases execute_query_write_cases)


subsection \<open>An invariant of the tables\<close>

lemma BookID_add_copies [simp]: "BookID (add_copies k bid b) = BookID b"
  by (simp add: add_copies_def)

lemma BookID_comp_add_copies [simp]: "BookID \<circ> add_copies k bid = BookID"
  by (rule ext) simp

lemma BorrowID_set_return_date [simp]: "BorrowID (set_return_date today rid r) = BorrowID r"
  by (simp add: set_return_date_def)

lemma BorrowID_comp_set_return_date [simp]:
  "BorrowID \<circ> set_return_date today rid = BorrowID"
  by (rule ext) simp

lemma same_key_same_row:
  assumes "distinct (map f xs)" and "x \<in> set xs" and "y \<in> set xs" and "f x = f y"
  shows "x = y"
proof -
  from assms(1) have "inj_on f (set xs)" by (simp add: distinct_map)
  with assms(2-4) show ?thesis by (auto dest: inj_onD)
qed

lemma db_inv_insert_book:
  assumes "db_inv d" and "0 \<le> copies" and "insert_book t a year copies d = Inr ((), d')"
  shows "db_inv d'"
  using assms by (fastforce simp: db_inv_def insert_book_def)

lemma db_inv_insert_member:
  assumes "db_inv d" and "insert_member n e p d = Inr ((), d')"
  shows "db_inv d'"
  using assms by (auto simp: db_inv_def insert_member_def split: if_splits)

lemma db_inv_insert_borrowing:
  assumes "db_inv d" and "insert_borrowing today mid bid d = Inr ((), d')"
  shows "db_inv d'"
  using assms by (fastforce simp: db_inv_def insert_borrowing_def split: if_splits)

lemma db_inv_update_return_date:
  assumes "db_inv d" and "update_return_date today rid d = Inr ((), d')"
  shows "db_inv d'"
  using assms by (auto simp: db_inv_def update_return_date_def set_return_date_def)

lemma db_inv_plus_1:
  assumes "db_inv d" and "update_copies_plus_1 bid d = Inr ((), d')"
  shows "db_inv d'"
  using assms by (fastforce simp: db_inv_def update_copies_plus_1_def add_copies_def)

lemma db_inv_minus_1:
  assumes inv: "db_inv d" and b: "b \<in> set (Books d)" "BookID b = bid" "copies_positive b"
    and upd: "update_copies_minus_1 bid d = Inr ((), d')"
  shows "db_inv d'"
proof -
  from upd have d': "d' = d\<lparr>Books := map (add_copies (- 1) bid) (Books d)\<rparr>"
    by (simp add: update_copies_minus_1_def)
  have row: "BookID (add_copies (- 1) bid x) < next_book_id d \<and>
        (\<exists>n. AvailableCopies (add_copies (- 1) bid x) = Some n \<and> 0 \<le> n)"
    if x: "x \<in> set (Books d)" for x
  proof (cases "BookID x = bid")
    case False
    with inv x show ?thesis by (auto simp: db_inv_def add_copies_def)
  next
    case True
    from inv have "distinct (map BookID (Books d))" by (simp add: db_inv_def)
    with x b True have "x = b" by (auto intro: same_key_same_row)
    with b obtain n where "AvailableCopies x = Some n" "0 < n"
      by (auto simp: copies_positive_def split: option.splits)
    with inv x True show ?thesis by (auto simp: db_inv_def add_copies_def)
  qed
  with inv show ?thesis unfolding d' by (auto simp: db_inv_def)
qed


subsection \<open>Outcomes of the pages\<close>

lemma selectbox_Some: "selectbox opts c = Some x \<Longrightarrow> x = c \<and> c \<in> set opts"
  by (simp add: selectbox_def split: if_splits)

lemma borrow_button_unselected:
  "member_id = None \<or> book_id = None \<Longrightarrow>
     borrow_button member_id book_id today w = (SelectBoth, w)"
  by (auto simp: borrow_button_def split: option.splits)

lemma add_book_page_outcome:
  assumes "add_book_page t a year copies w = (msg, w')"
  shows "(msg \<noteq> BookAdded \<and> database w' = database w) \<or>
         (msg = BookAdded \<and> insert_book t a year copies (database w) = Inr ((), database w'))"
  using assms
  by (auto simp: add_book_page_def split: prod.splits option.splits if_splits
        dest!: execute_query_fetch_cases execute_query_write_cases)

lemma add_member_page_outcome:
  assumes "add_member_page n e p w = (msg, w')"
  shows "(msg \<noteq> MemberAdded \<and> database w' = database w) \<or>
         (msg = MemberAdded \<and>
          insert_member n e (if p \<noteq> [] then Some p else None) (database w) =
            Inr ((), database w'))"
  using assms
  by (auto simp: add_member_page_def split: prod.splits option.splits if_splits
        dest!: execute_query_write_cases)

lemma borrow_page_outcome:
  assumes run: "borrow_page mc bc today w = (msg, w')"
  shows "(msg \<noteq> BorrowSuccess \<and> msg \<noteq> FailedUpdateAvailability \<and> database w' = database w) \<or>
         ((\<exists>b \<in> set (Books (database w)). BookID b = bc \<and> copies_positive b) \<and>
          (\<exists>d1. insert_borrowing today mc bc (database w) = Inr ((), d1) \<and>
             ((msg = FailedUpdateAvailability \<and> database w' = d1) \<or>
              (msg = BorrowSuccess \<and> update_copies_minus_1 bc d1 = Inr ((), database w')))))"
proof -
  obtain members w1 where q1: "execute_query select_members True w = (members, w1)"
    by (cases "execute_query select_members True w")
  obtain books w2 where q2: "execute_query select_available_books True w1 = (books, w2)"
    by (cases "execute_query select_available_books True w1")
  define member_id where
    "member_id = (case members of Some (m # ms) \<Rightarrow> selectbox (map fst (m # ms)) mc | _ \<Rightarrow> None)"
  define book_id where
    "book_id = (case books of Some (b # bs) \<Rightarrow> selectbox (map BookID (b # bs)) bc | _ \<Rightarrow> None)"
  from q1 q2 have db2: "database w2 = database w"
    by (auto dest!: execute_query_read_eq)
  from run q1 q2 have button: "borrow_button member_id book_id today w2 = (msg, w')"
    by (simp add: borrow_page_def member_id_def book_id_def)
  show ?thesis
  proof (cases "member_id = None \<or> book_id = None")
    case True
    with button db2 show ?thesis by (auto simp: borrow_button_unselected)
  next
    case False
    then obtain m b where sel: "member_id = Some m" "book_id = Some b" by auto
    from sel(1) have m: "m = mc"
      by (auto simp: member_id_def split: option.splits list.splits dest: selectbox_Some)
    from sel(2) obtain bs where bs: "books = Some bs" "b = bc" "bc \<in> set (map BookID bs)"
      by (auto simp: book_id_def split: option.splits list.splits dest!: selectbox_Some)
    from q2 bs(1) have "bs = filter copies_positive (Books (database w1))"
      by (auto dest!: execute_query_Some simp: select_available_books_def)
    with q1 have "bs = filter copies_positive (Books (database w))"
      by (auto dest!: execute_query_read_eq)
    with bs(3) have avail: "\<exists>x \<in> set (Books (database w)). BookID x = bc \<and> copies_positive x"
      by auto
    from button sel m bs(2) have "borrow_button (Some mc) (Some bc) today w2 = (msg, w')"
      by simp
    from borrow_button_outcome [OF this] avail db2 show ?thesis by auto
  qed
qed

lemma return_page_outcome:
  assumes run: "return_page c today w = (msg, w')"
  shows "(msg \<noteq> ReturnSuccess \<and> msg \<noteq> FailedUpdateAvailability \<and> database w' = database w) \<or>
         ((\<exists>r \<in> set (Borrowing (database w)). BorrowID r = c \<and> ReturnDate r = None) \<and>
          (\<exists>d1. update_return_date today c (database w) = Inr ((), d1) \<and>
             ((msg = FailedUpdateAvailability \<and> database w' = d1) \<or>
              (msg = ReturnSuccess \<and>
               (\<exists>bid d0. select_book_of_borrow c (database w) = Inr (Some bid, d0) \<and>
                  update_copies_plus_1 bid d1 = Inr ((), database w'))))))"
proof -
  obtain borrowed w1 where q1: "execute_query select_borrowed_books True w = (borrowed, w1)"
    by (cases "execute_query select_borrowed_books True w")
  then have db1: "database w1 = database w" by (rule execute_query_read_eq)
  show ?thesis
  proof (cases "\<exists>rs. borrowed = Some rs \<and> rs \<noteq> [] \<and> c \<in> set (map BorrowID rs)")
    case False
    with run q1 db1 show ?thesis
      by (auto simp: return_page_def return_button_def selectbox_def
            split: option.splits list.splits if_splits)
  next
    case True
    then obtain rs where rs: "borrowed = Some rs" "rs \<noteq> []" "c \<in> set (map BorrowID rs)"
      by blast
    from q1 rs(1) have "rs = filter (\<lambda>r. ReturnDate r = None \<and> joined (database w) r)
        (Borrowing (database w))"
      by (auto dest!: execute_query_Some simp: select_borrowed_books_def)
    with rs(3) have listed: "\<exists>r \<in> set (Borrowing (database w)). BorrowID r = c \<and> ReturnDate r = None"
      by auto
    from run q1 rs have "return_button (Some c) today w1 = (msg, w')"
      by (auto simp: return_page_def selectbox_def split: list.splits)
    from return_button_outcome [OF this] listed db1 show ?thesis by auto
  qed
qed


subsection \<open>The invariant holds in every reachable database\<close>

lemma db_inv_empty: "db_inv empty_db"
  by (simp add: db_inv_def empty_db_def)

lemma db_inv_add_book_page:
  assumes "db_inv (database w)" and "0 \<le> copies"
  shows "db_inv (after (add_book_page t a year copies w))"
proof -
  obtain msg w' where run: "add_book_page t a year copies w = (msg, w')"
    by (cases "add_book_page t a year copies w")
  from add_book_page_outcome [OF run] assms have "db_inv (database w')"
    by (auto intro: db_inv_insert_book)
  with run show ?thesis by (simp add: after_def)
qed

lemma db_inv_add_member_page:
  assumes "db_inv (database w)"
  shows "db_inv (after (add_member_page n e p w))"
proof -
  obtain msg w' where run: "add_member_page n e p w = (msg, w')"
    by (cases "add_member_page n e p w")
  from add_member_page_outcome [OF run] assms have "db_inv (database w')"
    by (auto intro: db_inv_insert_member)
  with run show ?thesis by (simp add: after_def)
qed

lemma Books_insert_borrowing:
  "insert_borrowing today mid bid d = Inr ((), d1) \<Longrightarrow> Books d1 = Books d"
  by (auto simp: insert_borrowing_def split: if_splits)

lemma db_inv_borrow_page:
  assumes inv: "db_inv (database w)"
  shows "db_inv (after (borrow_page mc bc today w))"
proof -
  obtain msg w' where run: "borrow_page mc bc today w = (msg, w')"
    by (cases "borrow_page mc bc today w")
  from borrow_page_outcome [OF run] have "db_inv (database w')"
  proof (elim disjE conjE exE bexE)
    assume "database w' = database w"
    with inv show ?thesis by simp
  next
    fix b d1
    assume b: "b \<in> set (Books (database w))" "BookID b = bc" "copies_positive b"
      and ins: "insert_borrowing today mc bc (database w) = Inr ((), d1)"
      and "msg = FailedUpdateAvailability" "database w' = d1"
    with inv show ?thesis by (auto intro: db_inv_insert_borrowing)
  next
    fix b d1
    assume b: "b \<in> set (Books (database w))" "BookID b = bc" "copies_positive b"
      and ins: "insert_borrowing today mc bc (database w) = Inr ((), d1)"
      and upd: "update_copies_minus_1 bc d1 = Inr ((), database w')"
    from inv ins have "db_inv d1" by (rule db_inv_insert_borrowing)
    moreover from ins b(1) have "b \<in> set (Books d1)" by (simp add: Books_insert_borrowing)
    ultimately show ?thesis using b(2,3) upd by (rule db_inv_minus_1)
  qed
  with run show ?thesis by (simp add: after_def)
qed

lemma db_inv_return_page:
  assumes inv: "db_inv (database w)"
  shows "db_inv (after (return_page c today w))"
proof -
  obtain msg w' where run: "return_page c today w = (msg, w')"
    by (cases "return_page c today w")
  from return_page_outcome [OF run] inv have "db_inv (database w')"
    by (auto intro: db_inv_update_return_date db_inv_plus_1)
  with run show ?thesis by (simp add: after_def)
qed

lemma reachable_db_inv: "reachable d \<Longrightarrow> db_inv d"
proof (induction rule: reachable.induct)
  case initial
  show ?case by (rule db_inv_empty)
next
  case (add_book d year copies title author script)
  then show ?case by (intro db_inv_add_book_page) (simp_all add: start_def)
next
  case (add_member d name email phone script)
  then show ?case by (intro db_inv_add_member_page) (simp add: start_def)
next
  case (borrow d mid bid today script)
  then show ?case by (intro db_inv_borrow_page) (simp add: start_def)
next
  case (return d rid today script)
  then show ?case by (intro db_inv_return_page) (simp add: start_def)
qed

section \<open>The example sessions evaluated\<close>

lemmas stmt_defs = count_books_def count_members_def count_open_borrowing_def sql_sum_def
  sum_available_copies_def select_book_by_title_author_def insert_book_def insert_member_def
  select_members_def copies_positive_def select_available_books_def open_loan_def
  select_existing_borrow_def insert_borrowing_def add_copies_def update_copies_minus_1_def
  update_copies_plus_1_def joined_def select_borrowed_books_def select_book_of_borrow_def
  set_return_date_def update_return_date_def

lemmas run_defs = start_def after_def execute_query_def app_get_connection_def
  get_connection_unfold next_env_def healthy_def run_body_def connection_of_def
  connect_event_def selectbox_def

lemma demo_db1_eq: "demo_db1 = \<lparr>Books = [],
    Members = [\<lparr>MemberID = 1, Name = ''Ann'', Email = ''ann@example.org'', PhoneNumber = None\<rparr>],
    Borrowing = [], next_book_id = 1, next_member_id = 2, next_borrow_id = 1\<rparr>"
  by (simp add: demo_db1_def add_member_page_def run_defs stmt_defs empty_db_def)

lemma demo_db2_eq: "demo_db2 = \<lparr>Books = [\<lparr>BookID = 1, Title = ''1984'', Author = ''Orwell'',
       PublishedYear = Some 1949, AvailableCopies = Some 4\<rparr>],
    Members = [\<lparr>MemberID = 1, Name = ''Ann'', Email = ''ann@example.org'', PhoneNumber = None\<rparr>],
    Borrowing = [], next_book_id = 2, next_member_id = 2, next_borrow_id = 1\<rparr>"
  by (simp add: demo_db2_def demo_db1_eq add_book_page_def run_defs stmt_defs)

lemma demo_db3_eq: "demo_db3 = \<lparr>Books = [\<lparr>BookID = 1, Title = ''1984'', Author = ''Orwell'',
       PublishedYear = Some 1949, AvailableCopies = Some 3\<rparr>],
    Members = [\<lparr>MemberID = 1, Name = ''Ann'', Email = ''ann@example.org'', PhoneNumber = None\<rparr>],
    Borrowing = [\<lparr>BorrowID = 1, BorrowMemberID = 1, BorrowBookID = 1, BorrowDate = Some 100,
       DueDate = None, ReturnDate = None\<rparr>],
    next_book_id = 2, next_member_id = 2, next_borrow_id = 2\<rparr>"
  by (simp add: demo_db3_def demo_db2_eq borrow_page_def borrow_button_def run_defs stmt_defs)

lemma demo_db4_eq: "demo_db4 = \<lparr>Books = [\<lparr>BookID = 1, Title = ''1984'', Author = ''Orwell'',
       PublishedYear = Some 1949, AvailableCopies = Some 4\<rparr>],
    Members = [\<lparr>MemberID = 1, Name = ''Ann'', Email = ''ann@example.org'', PhoneNumber = None\<rparr>],
    Borrowing = [\<lparr>BorrowID = 1, BorrowMemberID = 1, BorrowBookID = 1, BorrowDate = Some 100,
       DueDate = None, ReturnDate = Some 107\<rparr>],
    next_book_id = 2, next_member_id = 2, next_borrow_id = 2\<rparr>"
  by (simp add: demo_db4_def demo_db3_eq return_page_def return_button_def run_defs stmt_defs)

lemma reachable_demo_db1: "reachable demo_db1"
  unfolding demo_db1_def by (rule reachable.add_member [OF reachable.initial])

lemma reachable_demo_db2: "reachable demo_db2"
  unfolding demo_db2_def by (rule reachable.add_book [OF reachable_demo_db1]) simp_all

lemma reachable_demo_db3: "reachable demo_db3"
  unfolding demo_db3_def by (rule reachable.borrow [OF reachable_demo_db2])

lemma reachable_demo_db4: "reachable demo_db4"
  unfolding demo_db4_def by (rule reachable.return [OF reachable_demo_db3])

section \<open>The claims about the borrowing workflow\<close>



lemma demo_single_copy_eq: "demo_single_copy = \<lparr>Books = [\<lparr>BookID = 1, Title = ''1984'',
       Author = ''Orwell'', PublishedYear = Some 1949, AvailableCopies = Some 1\<rparr>],
    Members = [\<lparr>MemberID = 1, Name = ''Ann'', Email = ''ann@example.org'', PhoneNumber = None\<rparr>],
    Borrowing = [], next_book_id = 2, next_member_id = 2, next_borrow_id = 1\<rparr>"
  by (simp add: demo_single_copy_def demo_db1_eq add_book_page_def run_defs stmt_defs)

lemma demo_sold_out_eq: "demo_sold_out = \<lparr>Books = [\<lparr>BookID = 1, Title = ''1984'',
       Author = ''Orwell'', PublishedYear = Some 1949, AvailableCopies = Some 0\<rparr>],
    Members = [\<lparr>MemberID = 1, Name = ''Ann'', Email = ''ann@example.org'', PhoneNumber = None\<rparr>],
    Borrowing = [\<lparr>BorrowID = 1, BorrowMemberID = 1, BorrowBookID = 1, BorrowDate = Some 100,
       DueDate = None, ReturnDate = None\<rparr>],
    next_book_id = 2, next_member_id = 2, next_borrow_id = 2\<rparr>"
  by (simp add: demo_sold_out_def demo_single_copy_eq borrow_page_def borrow_button_def
        run_defs stmt_defs)

lemma commits_append [simp]: "commits (xs @ ys) = commits xs + commits ys"
  by (simp add: commits_def)





lemma add_copies_back [simp]: "add_copies 1 bid (add_copies (- 1) bid x) = x"
  by (cases "AvailableCopies x") (simp_all add: add_copies_def)

lemma first_with_fresh_id:
  assumes "\<forall>r \<in> set rs. BorrowID r < n" and "BorrowID x = n"
  shows "filter (\<lambda>r. BorrowID r = n) (rs @ [x]) = [x]"
proof -
  from assms(1) have "filter (\<lambda>r. BorrowID r = n) rs = []"
    by (induction rs) auto
  with assms(2) show ?thesis by simp
qed

lemma update_copies_minus_1_Inr:
  "update_copies_minus_1 bid d = Inr ((), d') \<longleftrightarrow>
     d' = d\<lparr>Books := map (add_copies (- 1) bid) (Books d)\<rparr>"
  by (auto simp: update_copies_minus_1_def)

lemma update_copies_plus_1_Inr:
  "update_copies_plus_1 bid d = Inr ((), d') \<longleftrightarrow>
     d' = d\<lparr>Books := map (add_copies 1 bid) (Books d)\<rparr>"
  by (auto simp: update_copies_plus_1_def)

lemma update_return_date_Inr:
  "update_return_date today rid d = Inr ((), d') \<longleftrightarrow>
     d' = d\<lparr>Borrowing := map (set_return_date today rid) (Borrowing d)\<rparr>"
  by (auto simp: update_return_date_def)

lemma insert_borrowing_Inr:
  "insert_borrowing today mid bid d = Inr ((), d') \<longleftrightarrow>
     mid \<in> set (map MemberID (Members d)) \<and> bid \<in> set (map BookID (Books d)) \<and>
     d' = d\<lparr>Borrowing := Borrowing d @
             [\<lparr>BorrowID = next_borrow_id d, BorrowMemberID = mid, BorrowBookID = bid,
               BorrowDate = Some today, DueDate = None, ReturnDate = None\<rparr>],
           next_borrow_id := next_borrow_id d + 1\<rparr>"
  by (auto simp: insert_borrowing_def)

text \<open>
  The rejection is the work of the listing: the handler of the button makes no test of
  AvailableCopies. Given the id of the sold-out book directly, as it could be only if the
  last copy went between the listing and the click, it inserts the record and decrements.
\<close>

lemma demo_second_member_eq: "demo_second_member = \<lparr>Books = [\<lparr>BookID = 1, Title = ''1984'',
       Author = ''Orwell'', PublishedYear = Some 1949, AvailableCopies = Some 0\<rparr>],
    Members = [\<lparr>MemberID = 1, Name = ''Ann'', Email = ''ann@example.org'', PhoneNumber = None\<rparr>,
      \<lparr>MemberID = 2, Name = ''Bob'', Email = ''bob@example.org'', PhoneNumber = None\<rparr>],
    Borrowing = [\<lparr>BorrowID = 1, BorrowMemberID = 1, BorrowBookID = 1, BorrowDate = Some 100,
       DueDate = None, ReturnDate = None\<rparr>],
    next_book_id = 2, next_member_id = 3, next_borrow_id = 2\<rparr>"
  by (simp add: demo_second_member_def demo_sold_out_eq add_member_page_def run_defs stmt_defs)

lemma borrow_button_makes_no_copy_test:
  "fst (borrow_button (Some 2) (Some 1) 101 (start demo_second_member [])) = BorrowSuccess \<and>
   available_copies_of
     (after (borrow_button (Some 2) (Some 1) 101 (start demo_second_member []))) 1 =
     [Some (- 1)]"
  by (simp add: demo_second_member_eq borrow_button_def available_copies_of_def
        run_defs stmt_defs)

text \<open>
  C3. Let the Borrow page report success for a member and a book whose AvailableCopies was
  \<open>c\<close>, in a reachable database, and let \<open>r\<close> be the borrowing record that this run
  appended. If the Return page is then run on \<open>r\<close> and reports success, the book's
  AvailableCopies is \<open>c\<close> again. This holds under any behaviour of the environment in
  the two runs.
\<close>

theorem borrow_then_return_restores_copies:
  assumes reach: "reachable (database w)"
    and borrowed: "borrow_page mid bid today w = (BorrowSuccess, w1)"
    and created: "Borrowing (database w1) = Borrowing (database w) @ [r]"
    and later: "database w1' = database w1"
    and returned: "return_page (BorrowID r) today' w1' = (ReturnSuccess, w2)"
    and before: "available_copies_of (database w) bid = [Some c]"
  shows "available_copies_of (database w2) bid = [Some c]"
proof -
  from reach have inv: "db_inv (database w)" by (rule reachable_db_inv)
  from borrow_page_outcome [OF borrowed] obtain d1 where
    ins: "insert_borrowing today mid bid (database w) = Inr ((), d1)" and
    dec: "update_copies_minus_1 bid d1 = Inr ((), database w1)"
    by auto
  from ins have d1: "Books d1 = Books (database w)"
      "Borrowing d1 = Borrowing (database w) @
         [\<lparr>BorrowID = next_borrow_id (database w), BorrowMemberID = mid, BorrowBookID = bid,
           BorrowDate = Some today, DueDate = None, ReturnDate = None\<rparr>]"
    by (simp_all add: insert_borrowing_Inr)
  from dec have w1: "Books (database w1) = map (add_copies (- 1) bid) (Books d1)"
      "Borrowing (database w1) = Borrowing d1"
    by (simp_all add: update_copies_minus_1_Inr)
  from created w1(2) d1(2) have r: "BorrowID r = next_borrow_id (database w)" "BorrowBookID r = bid"
    by auto
  from return_page_outcome [OF returned] obtain bid' d0 d2 where
    sel: "select_book_of_borrow (BorrowID r) (database w1') = Inr (Some bid', d0)" and
    upd: "update_return_date today' (BorrowID r) (database w1') = Inr ((), d2)" and
    inc: "update_copies_plus_1 bid' d2 = Inr ((), database w2)"
    by auto
  from inv have "\<forall>x \<in> set (Borrowing (database w)). BorrowID x < BorrowID r"
    by (simp add: db_inv_def r(1))
  then have "filter (\<lambda>x. BorrowID x = BorrowID r) (Borrowing (database w) @ [r]) = [r]"
    by (rule first_with_fresh_id) simp
  with sel later created have "bid' = bid"
    by (simp add: select_book_of_borrow_def r(2))
  from upd have "Books d2 = Books (database w1')"
    by (simp add: update_return_date_Inr)
  with inc \<open>bid' = bid\<close> later w1(1) d1(1)
  have "Books (database w2) = Books (database w)"
    by (simp add: update_copies_plus_1_Inr comp_def)
  with before show ?thesis by (simp add: available_copies_of_def)
qed

theorem borrow_then_return_restores_copies_witness:
  "reachable (database (start demo_db2 [])) \<and>
   borrow_page 1 1 100 (start demo_db2 []) = (BorrowSuccess, start demo_db3 [] \<lparr>trace :=
      [PoolGet, Execute, Close, PoolGet, Execute, Close, PoolGet, Execute, Close,
       PoolGet, Execute, Commit, Close, PoolGet, Execute, Commit, Close]\<rparr>) \<and>
   fst (return_page 1 107 (start demo_db3 [])) = ReturnSuccess \<and>
   available_copies_of demo_db2 1 = [Some 4] \<and>
   available_copies_of (database (snd (return_page 1 107 (start demo_db3 [])))) 1 = [Some 4]"
proof -
  have reach: "reachable (database (start demo_db2 []))"
    by (simp add: start_def reachable_demo_db2)
  have borrowed: "borrow_page 1 1 100 (start demo_db2 []) = (BorrowSuccess, start demo_db3 [] \<lparr>trace :=
      [PoolGet, Execute, Close, PoolGet, Execute, Close, PoolGet, Execute, Close,
       PoolGet, Execute, Commit, Close, PoolGet, Execute, Commit, Close]\<rparr>)"
    by (simp add: demo_db3_eq demo_db2_eq borrow_page_def borrow_button_def run_defs stmt_defs)
  have created: "Borrowing (database (start demo_db3 [] \<lparr>trace :=
      [PoolGet, Execute, Close, PoolGet, Execute, Close, PoolGet, Execute, Close,
       PoolGet, Execute, Commit, Close, PoolGet, Execute, Commit, Close]\<rparr>)) =
      Borrowing (database (start demo_db2 [])) @ [\<lparr>BorrowID = 1, BorrowMemberID = 1, BorrowBookID = 1,
        BorrowDate = Some 100, DueDate = None, ReturnDate = None\<rparr>]"
    by (simp add: start_def demo_db3_eq demo_db2_eq)
  have later: "database (start demo_db3 []) = database (start demo_db3 [] \<lparr>trace :=
      [PoolGet, Execute, Close, PoolGet, Execute, Close, PoolGet, Execute, Close,
       PoolGet, Execute, Commit, Close, PoolGet, Execute, Commit, Close]\<rparr>)"
    by (simp add: start_def)
  obtain w2 where returned: "return_page (BorrowID \<lparr>BorrowID = 1, BorrowMemberID = 1, BorrowBookID = 1,
        BorrowDate = Some 100, DueDate = None, ReturnDate = None\<rparr>) 107 (start demo_db3 []) = (ReturnSuccess, w2)"
    by (simp add: demo_db3_eq return_page_def return_button_def run_defs stmt_defs)
  have before: "available_copies_of (database (start demo_db2 [])) 1 = [Some 4]"
    by (simp add: start_def demo_db2_eq available_copies_of_def)
  from borrow_then_return_restores_copies [OF reach borrowed created later returned before]
    reach borrowed returned before
  show ?thesis by (simp add: start_def)
qed

lemma execute_query_all_succeed:
  assumes "all_succeed w" and "stmt (database w) = Inr (res, d')"
  obtains w' where "execute_query stmt fetch w = (Some res, w')"
    and "database w' = (if fetch then database w else d')" and "all_succeed w'"
proof -
  from assms(1) have ok: "succeeds (has_pool w) (next_env w)" by (rule all_succeed_next)
  obtain r w' where run: "execute_query stmt fetch w = (r, w')"
    by (cases "execute_query stmt fetch w")
  from execute_query_succeeds [where w = w and stmt = stmt and res = res and d' = d'
      and fetch = fetch] ok assms(2) run
  have "r = Some res" "database w' = (if fetch then database w else d')" by simp_all
  moreover from all_succeed_step [OF assms(1), of stmt fetch] run have "all_succeed w'" by simp
  ultimately show thesis using run that by blast
qed

lemma borrow_button_messages:
  "fst (borrow_button member_id book_id today w) = BorrowSuccess \<or>
   fst (borrow_button member_id book_id today w) = AlreadyBorrowed \<or>
   fst (borrow_button member_id book_id today w) = FailedProcessBorrowing \<or>
   fst (borrow_button member_id book_id today w) = FailedUpdateAvailability \<or>
   fst (borrow_button member_id book_id today w) = SelectBoth"
  by (auto simp: borrow_button_def split: prod.splits option.splits)

lemma borrow_button_not_already:
  assumes "filter (open_loan mid bid) (Borrowing (database w)) = []"
  shows "fst (borrow_button member_id (Some bid) today w) \<noteq> AlreadyBorrowed \<or> member_id \<noteq> Some mid"
  using assms
  by (auto simp: borrow_button_def select_existing_borrow_def
        split: prod.splits option.splits dest!: execute_query_fetch_cases)

lemma borrow_page_as_button:
  "\<exists>member_id book_id w2. borrow_page mc bc today w = borrow_button member_id book_id today w2 \<and>
     database w2 = database w \<and> (member_id = None \<or> member_id = Some mc) \<and>
     (book_id = None \<or> book_id = Some bc)"
proof -
  obtain members w1 where q1: "execute_query select_members True w = (members, w1)"
    by (cases "execute_query select_members True w")
  obtain books w2 where q2: "execute_query select_available_books True w1 = (books, w2)"
    by (cases "execute_query select_available_books True w1")
  from q1 q2 have "database w2 = database w" by (auto dest!: execute_query_read_eq)
  with q1 q2 show ?thesis
    by (auto simp: borrow_page_def selectbox_def split: option.splits list.splits)
qed

lemma borrow_page_succeeds:
  assumes ok: "all_succeed w"
    and member: "mid \<in> set (map MemberID (Members (database w)))" "mid \<noteq> 0"
    and book: "b \<in> set (Books (database w))" "BookID b = bid" "copies_positive b" "bid \<noteq> 0"
    and no_loan: "filter (open_loan mid bid) (Borrowing (database w)) = []"
  shows "fst (borrow_page mid bid today w) = BorrowSuccess"
proof -
  obtain w1 where q1: "execute_query select_members True w =
        (Some (map (\<lambda>m. (MemberID m, Name m)) (Members (database w))), w1)"
      and w1: "database w1 = database w" "all_succeed w1"
    using execute_query_all_succeed [where w = w and stmt = select_members and fetch = True
        and res = "map (\<lambda>m. (MemberID m, Name m)) (Members (database w))" and d' = "database w"] ok
    by (auto simp: select_members_def)
  obtain w2 where q2: "execute_query select_available_books True w1 =
        (Some (filter copies_positive (Books (database w))), w2)"
      and w2: "database w2 = database w" "all_succeed w2"
    using execute_query_all_succeed [where w = w1 and stmt = select_available_books
        and fetch = True and res = "filter copies_positive (Books (database w))"
        and d' = "database w"] w1
    by (auto simp: select_available_books_def)
  obtain w3 where q3: "execute_query (select_existing_borrow mid bid) True w2 = (Some None, w3)"
      and w3: "database w3 = database w" "all_succeed w3"
    using execute_query_all_succeed [where w = w2 and stmt = "select_existing_borrow mid bid"
        and fetch = True and res = None and d' = "database w"] w2 no_loan
    by (auto simp: select_existing_borrow_def)
  from member(1) book(1,2) obtain d4 where
    ins: "insert_borrowing today mid bid (database w3) = Inr ((), d4)"
    by (auto simp: insert_borrowing_def w3(1))
  obtain w4 where q4: "execute_query (insert_borrowing today mid bid) False w3 = (Some (), w4)"
      and w4: "database w4 = d4" "all_succeed w4"
    using execute_query_all_succeed [where w = w3 and stmt = "insert_borrowing today mid bid"
        and fetch = False and res = "()" and d' = d4] w3(2) ins
    by auto
  obtain w5 where q5: "execute_query (update_copies_minus_1 bid) False w4 = (Some (), w5)"
    using execute_query_all_succeed [where w = w4 and stmt = "update_copies_minus_1 bid"
        and fetch = False and res = "()"
        and d' = "d4\<lparr>Books := map (add_copies (- 1) bid) (Books d4)\<rparr>"] w4
    by (auto simp: update_copies_minus_1_def)
  have pick: "(case Some xs of Some (y # ys) \<Rightarrow> selectbox (map f (y # ys)) c | _ \<Rightarrow> None) = Some c"
    if "c \<in> set (map f xs)" for f :: "'x \<Rightarrow> int" and xs c
  proof -
    from that have "selectbox (map f xs) c = Some c" by (simp only: selectbox_def if_True)
    with that show ?thesis by (cases xs) simp_all
  qed
  from member(1) have "mid \<in> set (map fst (map (\<lambda>m. (MemberID m, Name m)) (Members (database w))))"
    by (simp add: comp_def)
  then have sel_m: "(case Some (map (\<lambda>m. (MemberID m, Name m)) (Members (database w))) of
        Some (m # ms) \<Rightarrow> selectbox (map fst (m # ms)) mid | _ \<Rightarrow> None) = Some mid"
    by (rule pick)
  from book(1-3) have "bid \<in> set (map BookID (filter copies_positive (Books (database w))))"
    by auto
  then have sel_b: "(case Some (filter copies_positive (Books (database w))) of
        Some (x # xs) \<Rightarrow> selectbox (map BookID (x # xs)) bid | _ \<Rightarrow> None) = Some bid"
    by (rule pick)
  from q1 q2 have "borrow_page mid bid today w = borrow_button (Some mid) (Some bid) today w2"
    by (simp only: borrow_page_def Let_def prod.case sel_m sel_b)
  also from q3 q4 q5 member(2) book(4) have "\<dots> = (BorrowSuccess, w5)"
    by (simp add: borrow_button_def)
  finally show ?thesis by simp
qed

text \<open>
  C5. Let the preconditions of Borrow hold: the member exists, the book exists with
  AvailableCopies \<open>c > 0\<close>, and the pair has no open borrowing record (the two ids are
  not 0, which the handler's \<^verbatim>\<open>if member_id and book_id\<close> reads as no selection; an
  AUTO\_INCREMENT key is never 0). Then, when no
  statement of the run fails, the Borrow page reports success. Whenever it reports success,
  under any environment, exactly one record has been appended to Borrowing, with the
  member, the book, BorrowDate the current date and ReturnDate NULL, the AvailableCopies
  of the rows with this BookID is one less and every other book and every member is as
  before. In every other case the page reports a failure: "Failed to process borrowing",
  "Failed to update book availability" or "Please select both member and book".
\<close>

theorem borrow_inserts_record_and_decrements:
  assumes member: "mid \<in> set (map MemberID (Members (database w)))" "mid \<noteq> 0"
    and book: "b \<in> set (Books (database w))" "BookID b = bid" "AvailableCopies b = Some c"
      "0 < c" "bid \<noteq> 0"
    and no_loan: "filter (open_loan mid bid) (Borrowing (database w)) = []"
  shows "(all_succeed w \<longrightarrow> fst (borrow_page mid bid today w) = BorrowSuccess) \<and>
         (fst (borrow_page mid bid today w) = BorrowSuccess \<longrightarrow>
            Borrowing (after (borrow_page mid bid today w)) =
              Borrowing (database w) @
                [\<lparr>BorrowID = next_borrow_id (database w), BorrowMemberID = mid,
                  BorrowBookID = bid, BorrowDate = Some today, DueDate = None,
                  ReturnDate = None\<rparr>] \<and>
            Books (after (borrow_page mid bid today w)) =
              map (\<lambda>x. if BookID x = bid
                        then x\<lparr>AvailableCopies := map_option (\<lambda>n. n - 1) (AvailableCopies x)\<rparr>
                        else x) (Books (database w)) \<and>
            Members (after (borrow_page mid bid today w)) = Members (database w)) \<and>
         (fst (borrow_page mid bid today w) = BorrowSuccess \<or>
          fst (borrow_page mid bid today w) = FailedProcessBorrowing \<or>
          fst (borrow_page mid bid today w) = FailedUpdateAvailability \<or>
          fst (borrow_page mid bid today w) = SelectBoth)"
proof (intro conjI impI)
  assume ok: "all_succeed w"
  from book(3,4) have pos: "copies_positive b" by (simp add: copies_positive_def)
  from ok member book(1,2) pos book(5) no_loan
  show "fst (borrow_page mid bid today w) = BorrowSuccess"
    by (rule borrow_page_succeeds)
next
  obtain msg w' where run: "borrow_page mid bid today w = (msg, w')"
    by (cases "borrow_page mid bid today w")
  assume "fst (borrow_page mid bid today w) = BorrowSuccess"
  with run have "msg = BorrowSuccess" by simp
  with borrow_page_outcome [OF run] obtain d1 where
    ins: "insert_borrowing today mid bid (database w) = Inr ((), d1)" and
    dec: "update_copies_minus_1 bid d1 = Inr ((), database w')"
    by auto
  have same: "add_copies (- 1) bid =
      (\<lambda>x. if BookID x = bid
           then x\<lparr>AvailableCopies := map_option (\<lambda>n. n - 1) (AvailableCopies x)\<rparr> else x)"
    by (rule ext) (simp add: add_copies_def)
  from ins dec run
  show "Borrowing (after (borrow_page mid bid today w)) =
      Borrowing (database w) @
        [\<lparr>BorrowID = next_borrow_id (database w), BorrowMemberID = mid,
          BorrowBookID = bid, BorrowDate = Some today, DueDate = None, ReturnDate = None\<rparr>]"
    by (simp add: after_def insert_borrowing_Inr update_copies_minus_1_Inr)
  from ins dec run
  show "Books (after (borrow_page mid bid today w)) =
      map (\<lambda>x. if BookID x = bid
                then x\<lparr>AvailableCopies := map_option (\<lambda>n. n - 1) (AvailableCopies x)\<rparr>
                else x) (Books (database w))"
    by (simp add: after_def insert_borrowing_Inr update_copies_minus_1_Inr same)
  from ins dec run
  show "Members (after (borrow_page mid bid today w)) = Members (database w)"
    by (simp add: after_def insert_borrowing_Inr update_copies_minus_1_Inr)
next
  from borrow_page_as_button [of mid bid today w] obtain member_id book_id w2 where
    page: "borrow_page mid bid today w = borrow_button member_id book_id today w2" and
    w2: "database w2 = database w" and
    ids: "member_id = None \<or> member_id = Some mid" "book_id = None \<or> book_id = Some bid"
    by blast
  show "fst (borrow_page mid bid today w) = BorrowSuccess \<or>
      fst (borrow_page mid bid today w) = FailedProcessBorrowing \<or>
      fst (borrow_page mid bid today w) = FailedUpdateAvailability \<or>
      fst (borrow_page mid bid today w) = SelectBoth"
  proof (cases "member_id = Some mid \<and> book_id = Some bid")
    case False
    with ids have "member_id = None \<or> book_id = None" by auto
    then show ?thesis by (simp add: page borrow_button_unselected)
  next
    case True
    from no_loan w2 have "filter (open_loan mid bid) (Borrowing (database w2)) = []" by simp
    from borrow_button_not_already [OF this, of member_id today] True
    have "fst (borrow_button member_id book_id today w2) \<noteq> AlreadyBorrowed" by simp
    with borrow_button_messages [of member_id book_id today w2] show ?thesis
      by (auto simp: page)
  qed
qed

theorem borrow_inserts_record_and_decrements_witness:
  "1 \<in> set (map MemberID (Members (database (start demo_db2 [])))) \<and>
   \<lparr>BookID = 1, Title = ''1984'', Author = ''Orwell'', PublishedYear = Some 1949,
     AvailableCopies = Some 4\<rparr> \<in> set (Books (database (start demo_db2 []))) \<and>
   filter (open_loan 1 1) (Borrowing (database (start demo_db2 []))) = [] \<and>
   all_succeed (start demo_db2 []) \<and>
   fst (borrow_page 1 1 100 (start demo_db2 [])) = BorrowSuccess \<and>
   Borrowing (after (borrow_page 1 1 100 (start demo_db2 []))) =
     [\<lparr>BorrowID = 1, BorrowMemberID = 1, BorrowBookID = 1, BorrowDate = Some 100,
       DueDate = None, ReturnDate = None\<rparr>] \<and>
   Books (after (borrow_page 1 1 100 (start demo_db2 []))) =
     [\<lparr>BookID = 1, Title = ''1984'', Author = ''Orwell'', PublishedYear = Some 1949,
       AvailableCopies = Some 3\<rparr>]"
proof -
  have member: "1 \<in> set (map MemberID (Members (database (start demo_db2 []))))" "(1::int) \<noteq> 0"
    by (simp_all add: start_def demo_db2_eq)
  have book: "\<lparr>BookID = 1, Title = ''1984'', Author = ''Orwell'', PublishedYear = Some 1949,
        AvailableCopies = Some 4\<rparr> \<in> set (Books (database (start demo_db2 [])))"
      "BookID \<lparr>BookID = 1, Title = ''1984'', Author = ''Orwell'', PublishedYear = Some 1949,
        AvailableCopies = Some 4\<rparr> = 1"
      "AvailableCopies \<lparr>BookID = 1, Title = ''1984'', Author = ''Orwell'',
        PublishedYear = Some 1949, AvailableCopies = Some 4\<rparr> = Some 4"
      "(0::int) < 4" "(1::int) \<noteq> 0"
    by (simp_all add: start_def demo_db2_eq)
  have no_loan: "filter (open_loan 1 1) (Borrowing (database (start demo_db2 []))) = []"
    by (simp add: start_def demo_db2_eq)
  have ok: "all_succeed (start demo_db2 [])"
    by (simp add: all_succeed_def start_def)
  from borrow_inserts_record_and_decrements [OF member book no_loan, of 100] member(1) book(1)
    no_loan ok
  show ?thesis by (simp add: start_def demo_db2_eq)
qed

section \<open>The dashboard\<close>

lemma sum_list_non_null:
  "sum_list (concat (map (\<lambda>v. case v of None \<Rightarrow> [] | Some n \<Rightarrow> [n]) vs)) =
   sum_list (map (\<lambda>v. case v of None \<Rightarrow> 0 | Some n \<Rightarrow> n) vs)"
  by (induction vs) (simp_all split: option.splits)

lemma sql_sum_or_zero:
  "(case sql_sum vs of None \<Rightarrow> 0 | Some s \<Rightarrow> s) =
   sum_list (map (\<lambda>v. case v of None \<Rightarrow> 0 | Some n \<Rightarrow> n) vs)"
proof (cases "concat (map (\<lambda>v. case v of None \<Rightarrow> [] | Some n \<Rightarrow> [n]) vs) = []")
  case True
  have "sum_list (concat (map (\<lambda>v. case v of None \<Rightarrow> [] | Some n \<Rightarrow> [n]) vs)) = 0"
    by (simp only: True sum_list.Nil)
  then have "sum_list (map (\<lambda>v. case v of None \<Rightarrow> 0 | Some n \<Rightarrow> n) vs) = 0"
    by (simp only: sum_list_non_null)
  with True show ?thesis
    by (simp only: sql_sum_def Let_def refl if_True option.case)
next
  case False
  then show ?thesis
    by (simp only: sql_sum_def Let_def if_False option.case sum_list_non_null)
qed

lemma get_dashboard_stats_reads:
  "database (snd (get_dashboard_stats w)) = database w"
  by (auto simp: get_dashboard_stats_def split: prod.splits dest!: execute_query_read_eq)

lemma get_dashboard_stats_all_succeed:
  assumes ok: "all_succeed w"
  shows "fst (get_dashboard_stats w) =
     \<lparr>total_books = int (length (Books (database w))),
      total_members = int (length (Members (database w))),
      borrowed_books = int (length (filter (\<lambda>r. ReturnDate r = None) (Borrowing (database w)))),
      available_copies =
        sum_list (map (\<lambda>b. case AvailableCopies b of None \<Rightarrow> 0 | Some n \<Rightarrow> n)
          (Books (database w)))\<rparr>"
proof -
  obtain w1 where q1: "execute_query count_books True w =
        (Some (int (length (Books (database w)))), w1)"
      and w1: "database w1 = database w" "all_succeed w1"
    using execute_query_all_succeed [where w = w and stmt = count_books and fetch = True
        and res = "int (length (Books (database w)))" and d' = "database w"] ok
    by (auto simp: count_books_def)
  obtain w2 where q2: "execute_query count_members True w1 =
        (Some (int (length (Members (database w)))), w2)"
      and w2: "database w2 = database w" "all_succeed w2"
    using execute_query_all_succeed [where w = w1 and stmt = count_members and fetch = True
        and res = "int (length (Members (database w)))" and d' = "database w"] w1
    by (auto simp: count_members_def)
  obtain w3 where q3: "execute_query count_open_borrowing True w2 =
        (Some (int (length (filter (\<lambda>r. ReturnDate r = None) (Borrowing (database w))))), w3)"
      and w3: "database w3 = database w" "all_succeed w3"
    using execute_query_all_succeed [where w = w2 and stmt = count_open_borrowing
        and fetch = True
        and res = "int (length (filter (\<lambda>r. ReturnDate r = None) (Borrowing (database w))))"
        and d' = "database w"] w2
    by (auto simp: count_open_borrowing_def)
  obtain w4 where q4: "execute_query sum_available_copies True w3 =
        (Some (sql_sum (map AvailableCopies (Books (database w)))), w4)"
    using execute_query_all_succeed [where w = w3 and stmt = sum_available_copies
        and fetch = True and res = "sql_sum (map AvailableCopies (Books (database w)))"
        and d' = "database w"] w3
    by (auto simp: sum_available_copies_def)
  have "(case Some (sql_sum (map AvailableCopies (Books (database w)))) of
          Some (Some c) \<Rightarrow> c | _ \<Rightarrow> 0) =
        (case sql_sum (map AvailableCopies (Books (database w))) of None \<Rightarrow> 0 | Some s \<Rightarrow> s)"
    by (simp split: option.splits)
  also have "\<dots> = sum_list (map (\<lambda>b. case AvailableCopies b of None \<Rightarrow> 0 | Some n \<Rightarrow> n)
      (Books (database w)))"
    by (simp add: sql_sum_or_zero comp_def)
  finally show ?thesis using q1 q2 q3 q4
    by (simp add: get_dashboard_stats_def)
qed

lemma get_dashboard_stats_empty:
  assumes "Books (database w) = []" "Members (database w) = []" "Borrowing (database w) = []"
  shows "fst (get_dashboard_stats w) =
     \<lparr>total_books = 0, total_members = 0, borrowed_books = 0, available_copies = 0\<rparr>"
proof -
  obtain r1 w1 where q1: "execute_query count_books True w = (r1, w1)"
    by (cases "execute_query count_books True w")
  obtain r2 w2 where q2: "execute_query count_members True w1 = (r2, w2)"
    by (cases "execute_query count_members True w1")
  obtain r3 w3 where q3: "execute_query count_open_borrowing True w2 = (r3, w3)"
    by (cases "execute_query count_open_borrowing True w2")
  obtain r4 w4 where q4: "execute_query sum_available_copies True w3 = (r4, w4)"
    by (cases "execute_query sum_available_copies True w3")
  from q1 q2 q3 have dbs: "database w1 = database w" "database w2 = database w"
      "database w3 = database w"
    by (auto dest!: execute_query_read_eq)
  from execute_query_fetch_cases [OF q1] assms have r1: "(case r1 of Some c \<Rightarrow> c | None \<Rightarrow> 0) = 0"
    by (auto simp: count_books_def)
  from execute_query_fetch_cases [OF q2] assms dbs
  have r2: "(case r2 of Some c \<Rightarrow> c | None \<Rightarrow> 0) = 0"
    by (auto simp: count_members_def)
  from execute_query_fetch_cases [OF q3] assms dbs
  have r3: "(case r3 of Some c \<Rightarrow> c | None \<Rightarrow> 0) = 0"
    by (auto simp: count_open_borrowing_def)
  from execute_query_fetch_cases [OF q4] assms dbs
  have r4: "(case r4 of Some (Some c) \<Rightarrow> c | _ \<Rightarrow> 0) = 0"
    by (auto simp: sum_available_copies_def sql_sum_def)
  from q1 q2 q3 q4 r1 r2 r3 r4 show ?thesis
    by (simp add: get_dashboard_stats_def)
qed

text \<open>
  C9. When none of its four queries fails, \<^verbatim>\<open>get_dashboard_stats\<close> returns the number of
  books, the number of members, the number of borrowing records whose ReturnDate is NULL,
  and the sum of AvailableCopies over all books, a NULL sum (no book, or no book with a
  copy count) counting as 0. On an empty database every statistic is 0, whatever the
  environment does (a query that fails yields 0 as well). The function only reads.
\<close>

theorem dashboard_stats_aggregates:
  "(all_succeed w \<longrightarrow>
      fst (get_dashboard_stats w) =
        \<lparr>total_books = int (length (Books (database w))),
         total_members = int (length (Members (database w))),
         borrowed_books =
           int (length (filter (\<lambda>r. ReturnDate r = None) (Borrowing (database w)))),
         available_copies =
           sum_list (map (\<lambda>b. case AvailableCopies b of None \<Rightarrow> 0 | Some n \<Rightarrow> n)
             (Books (database w)))\<rparr>) \<and>
   (Books (database w) = [] \<and> Members (database w) = [] \<and> Borrowing (database w) = [] \<longrightarrow>
      fst (get_dashboard_stats w) =
        \<lparr>total_books = 0, total_members = 0, borrowed_books = 0, available_copies = 0\<rparr>) \<and>
   database (snd (get_dashboard_stats w)) = database w"
  using get_dashboard_stats_all_succeed [of w] get_dashboard_stats_empty [of w]
    get_dashboard_stats_reads [of w]
  by blast

theorem dashboard_stats_aggregates_witness:
  "all_succeed (start demo_db3 []) \<and>
   fst (get_dashboard_stats (start demo_db3 [])) =
     \<lparr>total_books = 1, total_members = 1, borrowed_books = 1, available_copies = 3\<rparr> \<and>
   Books (database (start empty_db [])) = [] \<and>
   Members (database (start empty_db [])) = [] \<and>
   Borrowing (database (start empty_db [])) = [] \<and>
   fst (get_dashboard_stats (start empty_db [])) =
     \<lparr>total_books = 0, total_members = 0, borrowed_books = 0, available_copies = 0\<rparr>"
proof -
  have ok: "all_succeed (start demo_db3 [])"
    by (simp add: all_succeed_def start_def)
  have empty: "Books (database (start empty_db [])) = []"
      "Members (database (start empty_db [])) = []"
      "Borrowing (database (start empty_db [])) = []"
    by (simp_all add: start_def empty_db_def)
  from dashboard_stats_aggregates [of "start demo_db3 []"] ok
  have one: "fst (get_dashboard_stats (start demo_db3 [])) =
      \<lparr>total_books = 1, total_members = 1, borrowed_books = 1, available_copies = 3\<rparr>"
    by (simp add: start_def demo_db3_eq)
  from dashboard_stats_aggregates [of "start empty_db []"] empty
  have two: "fst (get_dashboard_stats (start empty_db [])) =
      \<lparr>total_books = 0, total_members = 0, borrowed_books = 0, available_copies = 0\<rparr>"
    by blast
  from ok one empty two show ?thesis by blast
qed

section \<open>Return of a record that is already returned\<close>

lemma filter_key_unique:
  assumes "distinct (map f xs)" and "x \<in> set xs"
  shows "filter (\<lambda>y. f y = f x) xs = [x]"
  using assms
proof (induction xs)
  case Nil
  then show ?case by simp
next
  case (Cons a xs)
  show ?case
  proof (cases "a = x")
    case True
    from Cons.prems(1) have "f x \<notin> f ` set xs" by (simp add: True)
    then have "filter (\<lambda>y. f y = f x) xs = []"
      by (auto simp: filter_empty_conv image_iff)
    with True show ?thesis by simp
  next
    case False
    with Cons.prems have "x \<in> set xs" "f a \<noteq> f x" by auto
    with Cons.IH Cons.prems(1) show ?thesis by simp
  qed
qed

text \<open>
  The select box of the Return page lists the open records only, so within one run of the
  page the handler is never given a record that is already returned: asking the page for
  such a record changes nothing. The handler itself receives such an id only when the
  record was returned between the listing and the click.
\<close>

lemma return_page_skips_returned_record:
  assumes key: "distinct (map BorrowID (Borrowing (database w)))"
    and r: "r \<in> set (Borrowing (database w))" "BorrowID r = rid" "ReturnDate r = Some d0"
  shows "fst (return_page rid today w) \<noteq> ReturnSuccess \<and>
         database (snd (return_page rid today w)) = database w"
proof -
  obtain msg w' where run: "return_page rid today w = (msg, w')"
    by (cases "return_page rid today w")
  have "\<not> (\<exists>x \<in> set (Borrowing (database w)). BorrowID x = rid \<and> ReturnDate x = None)"
  proof
    assume "\<exists>x \<in> set (Borrowing (database w)). BorrowID x = rid \<and> ReturnDate x = None"
    then obtain x where x: "x \<in> set (Borrowing (database w))" "BorrowID x = rid"
        "ReturnDate x = None"
      by blast
    with key r have "x = r" by (auto intro: same_key_same_row)
    with x(3) r(3) show False by simp
  qed
  with return_page_outcome [OF run] run show ?thesis by auto
qed

text \<open>
  C10. The handler of the Return button does not look at ReturnDate. Called with the id of
  a record whose ReturnDate is already set, and with no statement failing, it reports
  success, overwrites the record's ReturnDate with the current date and adds 1 to the
  AvailableCopies of the record's book once more. BorrowID is the primary key of Borrowing.
\<close>

theorem return_of_returned_record_repeats:
  assumes key: "distinct (map BorrowID (Borrowing (database w)))"
    and r: "r \<in> set (Borrowing (database w))" "BorrowID r = rid" "ReturnDate r = Some d0"
      "rid \<noteq> 0"
    and ok: "all_succeed w"
  shows "fst (return_button (Some rid) today w) = ReturnSuccess \<and>
         Borrowing (after (return_button (Some rid) today w)) =
           map (\<lambda>x. if BorrowID x = rid then x\<lparr>ReturnDate := Some today\<rparr> else x)
             (Borrowing (database w)) \<and>
         r\<lparr>ReturnDate := Some today\<rparr> \<in> set (Borrowing (after (return_button (Some rid) today w))) \<and>
         Books (after (return_button (Some rid) today w)) =
           map (\<lambda>x. if BookID x = BorrowBookID r
                     then x\<lparr>AvailableCopies := map_option (\<lambda>n. n + 1) (AvailableCopies x)\<rparr>
                     else x) (Books (database w))"
proof -
  from filter_key_unique [OF key r(1)] r(2)
  have only: "filter (\<lambda>x. BorrowID x = rid) (Borrowing (database w)) = [r]" by simp
  obtain w1 where q1: "execute_query (select_book_of_borrow rid) True w =
        (Some (Some (BorrowBookID r)), w1)"
      and w1: "database w1 = database w" "all_succeed w1"
    using execute_query_all_succeed [where w = w and stmt = "select_book_of_borrow rid"
        and fetch = True and res = "Some (BorrowBookID r)" and d' = "database w"] ok only
    by (auto simp: select_book_of_borrow_def)
  obtain w2 where q2: "execute_query (update_return_date today rid) False w1 = (Some (), w2)"
      and w2: "database w2 =
          (database w)\<lparr>Borrowing := map (set_return_date today rid) (Borrowing (database w))\<rparr>"
        "all_succeed w2"
    using execute_query_all_succeed [where w = w1 and stmt = "update_return_date today rid"
        and fetch = False and res = "()"
        and d' = "(database w)\<lparr>Borrowing :=
            map (set_return_date today rid) (Borrowing (database w))\<rparr>"] w1
    by (auto simp: update_return_date_def)
  obtain w3 where q3: "execute_query (update_copies_plus_1 (BorrowBookID r)) False w2 =
        (Some (), w3)"
      and w3: "database w3 =
          (database w2)\<lparr>Books := map (add_copies 1 (BorrowBookID r)) (Books (database w2))\<rparr>"
    using execute_query_all_succeed [where w = w2
        and stmt = "update_copies_plus_1 (BorrowBookID r)" and fetch = False and res = "()"
        and d' = "(database w2)\<lparr>Books :=
            map (add_copies 1 (BorrowBookID r)) (Books (database w2))\<rparr>"] w2(2)
    by (auto simp: update_copies_plus_1_def)
  from q1 q2 q3 r(4) have run: "return_button (Some rid) today w = (ReturnSuccess, w3)"
    by (simp add: return_button_def)
  have stamp: "set_return_date today rid =
      (\<lambda>x. if BorrowID x = rid then x\<lparr>ReturnDate := Some today\<rparr> else x)"
    by (rule ext) (simp add: set_return_date_def)
  have plus: "add_copies 1 (BorrowBookID r) =
      (\<lambda>x. if BookID x = BorrowBookID r
           then x\<lparr>AvailableCopies := map_option (\<lambda>n. n + 1) (AvailableCopies x)\<rparr> else x)"
    by (rule ext) (simp add: add_copies_def)
  have rows: "Borrowing (database w3) =
      map (\<lambda>x. if BorrowID x = rid then x\<lparr>ReturnDate := Some today\<rparr> else x)
        (Borrowing (database w))"
    by (simp add: w3 w2(1) stamp)
  from r(1,2) have "r\<lparr>ReturnDate := Some today\<rparr> \<in>
      (\<lambda>x. if BorrowID x = rid then x\<lparr>ReturnDate := Some today\<rparr> else x) `
        set (Borrowing (database w))"
    by (intro image_eqI [where x = r]) simp_all
  then have stamped: "r\<lparr>ReturnDate := Some today\<rparr> \<in> set (Borrowing (database w3))"
    by (simp only: rows set_map)
  have books: "Books (database w3) =
      map (\<lambda>x. if BookID x = BorrowBookID r
                then x\<lparr>AvailableCopies := map_option (\<lambda>n. n + 1) (AvailableCopies x)\<rparr>
                else x) (Books (database w))"
    by (simp add: w3 w2(1) plus)
  from run rows stamped books show ?thesis by (simp add: after_def)
qed

theorem return_of_returned_record_repeats_witness:
  "distinct (map BorrowID (Borrowing (database (start demo_db4 [])))) \<and>
   \<lparr>BorrowID = 1, BorrowMemberID = 1, BorrowBookID = 1, BorrowDate = Some 100,
     DueDate = None, ReturnDate = Some 107\<rparr> \<in> set (Borrowing (database (start demo_db4 []))) \<and>
   all_succeed (start demo_db4 []) \<and>
   fst (return_button (Some 1) 110 (start demo_db4 [])) = ReturnSuccess \<and>
   Borrowing (after (return_button (Some 1) 110 (start demo_db4 []))) =
     [\<lparr>BorrowID = 1, BorrowMemberID = 1, BorrowBookID = 1, BorrowDate = Some 100,
       DueDate = None, ReturnDate = Some 110\<rparr>] \<and>
   Books (after (return_button (Some 1) 110 (start demo_db4 []))) =
     [\<lparr>BookID = 1, Title = ''1984'', Author = ''Orwell'', PublishedYear = Some 1949,
       AvailableCopies = Some 5\<rparr>]"
proof -
  have key: "distinct (map BorrowID (Borrowing (database (start demo_db4 []))))"
    by (simp add: start_def demo_db4_eq)
  have r: "\<lparr>BorrowID = 1, BorrowMemberID = 1, BorrowBookID = 1, BorrowDate = Some 100,
        DueDate = None, ReturnDate = Some 107\<rparr> \<in> set (Borrowing (database (start demo_db4 [])))"
      "BorrowID \<lparr>BorrowID = 1, BorrowMemberID = 1, BorrowBookID = 1, BorrowDate = Some 100,
        DueDate = None, ReturnDate = Some 107\<rparr> = 1"
      "ReturnDate \<lparr>BorrowID = 1, BorrowMemberID = 1, BorrowBookID = 1, BorrowDate = Some 100,
        DueDate = None, ReturnDate = Some 107\<rparr> = Some 107"
      "(1::int) \<noteq> 0"
    by (simp_all add: start_def demo_db4_eq)
  have ok: "all_succeed (start demo_db4 [])"
    by (simp add: all_succeed_def start_def)
  from return_of_returned_record_repeats [OF key r ok, of 110] key r(1) ok
  show ?thesis by (simp add: start_def demo_db4_eq)
qed

section \<open>Open loans of a member and a book\<close>

text \<open>
  When the query that looks for an open loan of the pair does not fail, the handler rejects
  a request for a pair that has one, and runs in which no call fails keep the number of
  open loans of every pair at one or less.
\<close>

lemma borrow_rejected_when_loan_open:
  assumes ok: "succeeds (has_pool w) (next_env w)"
    and loan: "filter (open_loan mid bid) (Borrowing (database w)) \<noteq> []"
    and ids: "mid \<noteq> 0" "bid \<noteq> 0"
  shows "fst (borrow_button (Some mid) (Some bid) today w) = AlreadyBorrowed \<and>
         database (snd (borrow_button (Some mid) (Some bid) today w)) = database w"
proof -
  from loan obtain x xs where xs: "filter (open_loan mid bid) (Borrowing (database w)) = x # xs"
    by (cases "filter (open_loan mid bid) (Borrowing (database w))") auto
  then have sel: "select_existing_borrow mid bid (database w) =
      Inr (Some (BorrowID x), database w)"
    by (simp add: select_existing_borrow_def)
  obtain r w1 where q: "execute_query (select_existing_borrow mid bid) True w = (r, w1)"
    by (cases "execute_query (select_existing_borrow mid bid) True w")
  from execute_query_succeeds [where w = w and stmt = "select_existing_borrow mid bid"
      and res = "Some (BorrowID x)" and d' = "database w" and fetch = True] ok sel q
  have "r = Some (Some (BorrowID x))" "database w1 = database w" by simp_all
  with q ids show ?thesis by (simp add: borrow_button_def)
qed

lemma borrow_page_as_button_ok:
  assumes "all_succeed w"
  shows "\<exists>member_id book_id w2.
     borrow_page mc bc today w = borrow_button member_id book_id today w2 \<and>
     database w2 = database w \<and> all_succeed w2 \<and>
     (member_id = None \<or> member_id = Some mc) \<and> (book_id = None \<or> book_id = Some bc)"
proof -
  obtain members w1 where q1: "execute_query select_members True w = (members, w1)"
    by (cases "execute_query select_members True w")
  obtain books w2 where q2: "execute_query select_available_books True w1 = (books, w2)"
    by (cases "execute_query select_available_books True w1")
  from q1 q2 have "database w2 = database w" by (auto dest!: execute_query_read_eq)
  moreover from all_succeed_step [OF assms, of select_members True] q1 have "all_succeed w1"
    by simp
  with all_succeed_step [of w1 select_available_books True] q2 have "all_succeed w2" by simp
  ultimately show ?thesis using q1 q2
    by (auto simp: borrow_page_def selectbox_def split: option.splits list.splits)
qed

lemma borrow_page_keeps_db_when_loan_open:
  assumes ok: "all_succeed w"
    and loan: "filter (open_loan mc bc) (Borrowing (database w)) \<noteq> []"
  shows "database (snd (borrow_page mc bc today w)) = database w"
proof -
  from borrow_page_as_button_ok [OF ok, of mc bc today] obtain member_id book_id w2 where
    page: "borrow_page mc bc today w = borrow_button member_id book_id today w2" and
    w2: "database w2 = database w" "all_succeed w2" and
    sel: "member_id = None \<or> member_id = Some mc" "book_id = None \<or> book_id = Some bc"
    by blast
  show ?thesis
  proof (cases "member_id = Some mc \<and> book_id = Some bc \<and> mc \<noteq> 0 \<and> bc \<noteq> 0")
    case True
    from w2(2) have "succeeds (has_pool w2) (next_env w2)" by (rule all_succeed_next)
    from borrow_rejected_when_loan_open [OF this, of mc bc today] loan w2(1) True page
    show ?thesis by simp
  next
    case False
    with sel have "borrow_button member_id book_id today w2 = (SelectBoth, w2)"
      by (auto simp: borrow_button_def)
    with page w2(1) show ?thesis by simp
  qed
qed

lemma single_open_loans_insert_borrowing:
  assumes inv: "single_open_loans d"
    and none: "filter (open_loan mid bid) (Borrowing d) = []"
    and ins: "insert_borrowing today mid bid d = Inr ((), d')"
  shows "single_open_loans d'"
proof -
  from ins have rows: "Borrowing d' = Borrowing d @
      [\<lparr>BorrowID = next_borrow_id d, BorrowMemberID = mid, BorrowBookID = bid,
        BorrowDate = Some today, DueDate = None, ReturnDate = None\<rparr>]"
    by (simp add: insert_borrowing_Inr)
  have "length (filter (open_loan m b) (Borrowing d')) \<le> 1" for m b
  proof (cases "m = mid \<and> b = bid")
    case True
    with none show ?thesis by (simp add: rows open_loan_def)
  next
    case False
    then have "filter (open_loan m b) (Borrowing d') = filter (open_loan m b) (Borrowing d)"
      by (auto simp: rows open_loan_def)
    with inv show ?thesis by (simp add: single_open_loans_def)
  qed
  then show ?thesis by (simp add: single_open_loans_def)
qed

lemma open_loans_after_return:
  "length (filter (open_loan m b) (map (set_return_date today rid) rs)) \<le>
   length (filter (open_loan m b) rs)"
  by (induction rs) (auto simp: open_loan_def set_return_date_def)

lemma single_open_loans_update_return_date:
  assumes "single_open_loans d" and "update_return_date today rid d = Inr ((), d')"
  shows "single_open_loans d'"
  unfolding single_open_loans_def
proof (intro allI)
  fix m b
  from assms(2) have "Borrowing d' = map (set_return_date today rid) (Borrowing d)"
    by (simp add: update_return_date_Inr)
  then have "length (filter (open_loan m b) (Borrowing d')) \<le>
      length (filter (open_loan m b) (Borrowing d))"
    by (simp only: open_loans_after_return)
  also from assms(1) have "\<dots> \<le> 1" by (simp add: single_open_loans_def)
  finally show "length (filter (open_loan m b) (Borrowing d')) \<le> 1" .
qed

lemma single_open_loans_same_rows:
  "single_open_loans d \<Longrightarrow> Borrowing d' = Borrowing d \<Longrightarrow> single_open_loans d'"
  by (simp add: single_open_loans_def)

lemma single_open_loans_borrow_page:
  assumes ok: "all_succeed w" and inv: "single_open_loans (database w)"
  shows "single_open_loans (after (borrow_page mc bc today w))"
proof (cases "filter (open_loan mc bc) (Borrowing (database w)) = []")
  case False
  with ok have "database (snd (borrow_page mc bc today w)) = database w"
    by (rule borrow_page_keeps_db_when_loan_open)
  with inv show ?thesis by (simp add: after_def)
next
  case True
  obtain msg w' where run: "borrow_page mc bc today w = (msg, w')"
    by (cases "borrow_page mc bc today w")
  from borrow_page_outcome [OF run] have "single_open_loans (database w')"
  proof (elim disjE conjE exE bexE)
    assume "database w' = database w"
    with inv show ?thesis by simp
  next
    fix b d1
    assume "insert_borrowing today mc bc (database w) = Inr ((), d1)" "database w' = d1"
    with inv True show ?thesis by (auto intro: single_open_loans_insert_borrowing)
  next
    fix b d1
    assume ins: "insert_borrowing today mc bc (database w) = Inr ((), d1)"
      and upd: "update_copies_minus_1 bc d1 = Inr ((), database w')"
    from inv True ins have "single_open_loans d1" by (rule single_open_loans_insert_borrowing)
    moreover from upd have "Borrowing (database w') = Borrowing d1"
      by (simp add: update_copies_minus_1_Inr)
    ultimately show ?thesis by (rule single_open_loans_same_rows)
  qed
  with run show ?thesis by (simp add: after_def)
qed

lemma single_open_loans_return_page:
  assumes inv: "single_open_loans (database w)"
  shows "single_open_loans (after (return_page c today w))"
proof -
  obtain msg w' where run: "return_page c today w = (msg, w')"
    by (cases "return_page c today w")
  from return_page_outcome [OF run] have "single_open_loans (database w')"
  proof (elim disjE conjE exE bexE)
    assume "database w' = database w"
    with inv show ?thesis by simp
  next
    fix r d1
    assume "update_return_date today c (database w) = Inr ((), d1)" "database w' = d1"
    with inv show ?thesis by (auto intro: single_open_loans_update_return_date)
  next
    fix r d1 bid d0
    assume upd: "update_return_date today c (database w) = Inr ((), d1)"
      and inc: "update_copies_plus_1 bid d1 = Inr ((), database w')"
    from inv upd have "single_open_loans d1" by (rule single_open_loans_update_return_date)
    moreover from inc have "Borrowing (database w') = Borrowing d1"
      by (simp add: update_copies_plus_1_Inr)
    ultimately show ?thesis by (rule single_open_loans_same_rows)
  qed
  with run show ?thesis by (simp add: after_def)
qed

lemma Borrowing_insert_book:
  "insert_book t a year copies d = Inr ((), d') \<Longrightarrow> Borrowing d' = Borrowing d"
  by (auto simp: insert_book_def)

lemma Borrowing_insert_member:
  "insert_member n e p d = Inr ((), d') \<Longrightarrow> Borrowing d' = Borrowing d"
  by (auto simp: insert_member_def split: if_splits)

lemma single_open_loans_add_book_page:
  assumes "single_open_loans (database w)"
  shows "single_open_loans (after (add_book_page t a year copies w))"
proof -
  obtain msg w' where run: "add_book_page t a year copies w = (msg, w')"
    by (cases "add_book_page t a year copies w")
  from add_book_page_outcome [OF run] have "Borrowing (database w') = Borrowing (database w)"
    by (auto dest: Borrowing_insert_book)
  with assms run show ?thesis by (simp add: after_def single_open_loans_def)
qed

lemma single_open_loans_add_member_page:
  assumes "single_open_loans (database w)"
  shows "single_open_loans (after (add_member_page n e p w))"
proof -
  obtain msg w' where run: "add_member_page n e p w = (msg, w')"
    by (cases "add_member_page n e p w")
  from add_member_page_outcome [OF run] have "Borrowing (database w') = Borrowing (database w)"
    by (auto dest: Borrowing_insert_member)
  with assms run show ?thesis by (simp add: after_def single_open_loans_def)
qed

lemma reachable_without_fault_single_open_loans:
  "reachable_without_fault d \<Longrightarrow> single_open_loans d"
proof (induction rule: reachable_without_fault.induct)
  case initial
  show ?case by (simp add: single_open_loans_def empty_db_def)
next
  case (add_book d year copies script title author)
  then show ?case by (intro single_open_loans_add_book_page) (simp add: start_def)
next
  case (add_member d script name email phone)
  then show ?case by (intro single_open_loans_add_member_page) (simp add: start_def)
next
  case (borrow d script mid bid today)
  then show ?case by (intro single_open_loans_borrow_page) (simp_all add: start_def)
next
  case (return d script rid today)
  then show ?case by (intro single_open_loans_return_page) (simp add: start_def)
qed

lemma reachable_without_fault_reachable: "reachable_without_fault d \<Longrightarrow> reachable d"
  by (induction rule: reachable_without_fault.induct) (auto intro: reachable.intros)

text \<open>
  So every database reached without a failing call has at most one open loan for every
  member and book (\<open>reachable_without_fault_single_open_loans\<close>).
\<close>

lemma demo_db_twice_eq: "demo_db_twice = \<lparr>Books = [\<lparr>BookID = 1, Title = ''1984'',
       Author = ''Orwell'', PublishedYear = Some 1949, AvailableCopies = Some 2\<rparr>],
    Members = [\<lparr>MemberID = 1, Name = ''Ann'', Email = ''ann@example.org'', PhoneNumber = None\<rparr>],
    Borrowing = [\<lparr>BorrowID = 1, BorrowMemberID = 1, BorrowBookID = 1, BorrowDate = Some 100,
       DueDate = None, ReturnDate = None\<rparr>,
      \<lparr>BorrowID = 2, BorrowMemberID = 1, BorrowBookID = 1, BorrowDate = Some 101,
       DueDate = None, ReturnDate = None\<rparr>],
    next_book_id = 2, next_member_id = 2, next_borrow_id = 3\<rparr>"
  by (simp add: demo_db_twice_def check_fails_def demo_db3_eq borrow_page_def borrow_button_def
        run_defs stmt_defs)

lemma reachable_demo_db_twice: "reachable demo_db_twice"
  unfolding demo_db_twice_def by (rule reachable.borrow [OF reachable_demo_db3])

text \<open>
  C4 states that in every reachable database at most one borrowing record with NULL
  ReturnDate exists for a member and a book, and that Borrow is rejected when one exists.
  The handler looks for an open record first, but \<^verbatim>\<open>execute_query\<close> answers
  \<^verbatim>\<open>None\<close> both when the SELECT finds no row and when it raises, and the handler reads
  \<^verbatim>\<open>None\<close> as "no open record". In the run evaluated here member 1 already holds
  book 1, the SELECT of the second Borrow raises, the INSERT and the UPDATE succeed: the
  page reports success and the reachable database holds two open records for the pair.
\<close>

theorem second_open_loan_after_failed_check:
  "reachable demo_db3 \<and>
   filter (open_loan 1 1) (Borrowing demo_db3) =
     [\<lparr>BorrowID = 1, BorrowMemberID = 1, BorrowBookID = 1, BorrowDate = Some 100,
       DueDate = None, ReturnDate = None\<rparr>] \<and>
   fst (borrow_page 1 1 101 (start demo_db3 check_fails)) = BorrowSuccess \<and>
   reachable demo_db_twice \<and>
   filter (open_loan 1 1) (Borrowing demo_db_twice) =
     [\<lparr>BorrowID = 1, BorrowMemberID = 1, BorrowBookID = 1, BorrowDate = Some 100,
       DueDate = None, ReturnDate = None\<rparr>,
      \<lparr>BorrowID = 2, BorrowMemberID = 1, BorrowBookID = 1, BorrowDate = Some 101,
       DueDate = None, ReturnDate = None\<rparr>] \<and>
   \<not> single_open_loans demo_db_twice"
proof -
  have first: "filter (open_loan 1 1) (Borrowing demo_db3) =
     [\<lparr>BorrowID = 1, BorrowMemberID = 1, BorrowBookID = 1, BorrowDate = Some 100,
       DueDate = None, ReturnDate = None\<rparr>]"
    by (simp add: demo_db3_eq open_loan_def)
  have msg: "fst (borrow_page 1 1 101 (start demo_db3 check_fails)) = BorrowSuccess"
    by (simp add: check_fails_def demo_db3_eq borrow_page_def borrow_button_def
          run_defs stmt_defs)
  have both: "filter (open_loan 1 1) (Borrowing demo_db_twice) =
     [\<lparr>BorrowID = 1, BorrowMemberID = 1, BorrowBookID = 1, BorrowDate = Some 100,
       DueDate = None, ReturnDate = None\<rparr>,
      \<lparr>BorrowID = 2, BorrowMemberID = 1, BorrowBookID = 1, BorrowDate = Some 101,
       DueDate = None, ReturnDate = None\<rparr>]"
    by (simp add: demo_db_twice_eq open_loan_def)
  have broken: "\<not> single_open_loans demo_db_twice"
  proof
    assume "single_open_loans demo_db_twice"
    then have "length (filter (open_loan 1 1) (Borrowing demo_db_twice)) \<le> 1"
      unfolding single_open_loans_def by blast
    with both show False by simp
  qed
  from reachable_demo_db3 first msg reachable_demo_db_twice both broken show ?thesis
    by blast
qed

section \<open>A failing statement in the connection layer\<close>

lemma manager_execute_query_on_error:
  assumes conn: "get_connection (has_pool w) (attempts (next_env w)) = (Inr c, evs)"
    and fails: "run_body (next_env w) stmt (database w) = Inl e"
  shows "manager_execute_query stmt fetch w =
     (Inl (case rollback_fault (next_env w) of None \<Rightarrow> e | Some e' \<Rightarrow> e'),
      w\<lparr>env := tl (env w),
        trace := trace w @ evs @ [Execute, Rollback] @ close_if_connected (next_env w)\<rparr>)"
  using assms by (simp add: manager_execute_query_def Let_def)

lemma execute_query_on_error:
  assumes conn: "get_connection (has_pool w) (attempts (next_env w)) = (Inr c, evs)"
    and fails: "run_body (next_env w) stmt (database w) = Inl e"
  shows "execute_query stmt fetch w =
     (None, w\<lparr>env := tl (env w), trace := trace w @ evs @ [Execute, UiError]\<rparr>)"
  using assms by (simp add: execute_query_def app_get_connection_def Let_def)

text \<open>
  C6 states that a statement that fails with a database error is rolled back before the
  connection is released and that the error is propagated to the caller. This is what
  \<^verbatim>\<open>DatabaseManager.execute_query\<close> does. The \<^verbatim>\<open>execute_query\<close> of \<^verbatim>\<open>app.py\<close>, through
  which every page runs its statements, is written to do otherwise: its handler shows the
  error and returns \<^verbatim>\<open>None\<close>. Here a member is inserted with an e-mail address that is
  already registered: the statement fails with an integrity error, the caller receives
  \<^verbatim>\<open>None\<close>, and no rollback is in the trace.
\<close>

theorem app_execute_query_swallows_error:
  "run_body healthy (insert_member ''Bob'' ''ann@example.org'' None) demo_db1 =
     Inl IntegrityError \<and>
   fst (execute_query (insert_member ''Bob'' ''ann@example.org'' None) False
          (start demo_db1 [])) = None \<and>
   trace (snd (execute_query (insert_member ''Bob'' ''ann@example.org'' None) False
          (start demo_db1 []))) = [PoolGet, Execute, UiError]"
  by (simp add: demo_db1_eq run_defs stmt_defs)

text \<open>
  C6 as amended. When a connection was obtained and the statement fails, then
  \<^verbatim>\<open>DatabaseManager.execute_query\<close> calls rollback on the connection, closes the
  connection after that if it is still connected, and raises an error to its caller (the
  statement's error, unless the rollback raises one itself); the database is unchanged.
  On the same input the \<^verbatim>\<open>execute_query\<close> of \<^verbatim>\<open>app.py\<close> reports the error on the page
  and returns \<^verbatim>\<open>None\<close> to its caller; the database is unchanged.
\<close>

theorem statement_error_rolled_back_or_reported:
  assumes conn: "get_connection (has_pool w) (attempts (next_env w)) = (Inr c, evs)"
    and fails: "run_body (next_env w) stmt (database w) = Inl e"
  shows "(\<exists>e'. fst (manager_execute_query stmt fetch w) = Inl e') \<and>
         (rollback_fault (next_env w) = None \<longrightarrow>
            fst (manager_execute_query stmt fetch w) = Inl e) \<and>
         trace (snd (manager_execute_query stmt fetch w)) =
           trace w @ evs @ [Execute, Rollback] @
             (if connected_after (next_env w) then [Close] else []) \<and>
         database (snd (manager_execute_query stmt fetch w)) = database w \<and>
         fst (execute_query stmt fetch w) = None \<and>
         UiError \<in> set (trace (snd (execute_query stmt fetch w))) \<and>
         database (snd (execute_query stmt fetch w)) = database w"
  by (simp add: manager_execute_query_on_error [OF conn fails]
        execute_query_on_error [OF conn fails] close_if_connected_def)

theorem statement_error_rolled_back_or_reported_witness:
  "get_connection True [] = (Inr PooledConnection, [PoolGet]) \<and>
   run_body healthy (insert_member ''Bob'' ''ann@example.org'' None) demo_db1 =
     Inl IntegrityError \<and>
   fst (manager_execute_query (insert_member ''Bob'' ''ann@example.org'' None) False
          (start demo_db1 [])) = Inl IntegrityError \<and>
   trace (snd (manager_execute_query (insert_member ''Bob'' ''ann@example.org'' None) False
          (start demo_db1 []))) = [PoolGet, Execute, Rollback, Close] \<and>
   database (snd (manager_execute_query (insert_member ''Bob'' ''ann@example.org'' None) False
          (start demo_db1 []))) = demo_db1 \<and>
   fst (execute_query (insert_member ''Bob'' ''ann@example.org'' None) False
          (start demo_db1 [])) = None \<and>
   database (snd (execute_query (insert_member ''Bob'' ''ann@example.org'' None) False
          (start demo_db1 []))) = demo_db1"
proof -
  have conn: "get_connection (has_pool (start demo_db1 []))
      (attempts (next_env (start demo_db1 []))) = (Inr PooledConnection, [PoolGet])"
    by (simp add: run_defs)
  have fails: "run_body (next_env (start demo_db1 []))
      (insert_member ''Bob'' ''ann@example.org'' None) (database (start demo_db1 [])) =
      Inl IntegrityError"
    by (simp add: run_defs demo_db1_eq insert_member_def)
  from statement_error_rolled_back_or_reported [OF conn fails, of False] conn fails
  show ?thesis by (simp add: start_def next_env_def healthy_def)
qed

text \<open>
  Where the connection is closed: \<^verbatim>\<open>DatabaseManager.execute_query\<close> ends with the close
  on every path on which the connection is still connected, and the \<^verbatim>\<open>execute_query\<close>
  of \<^verbatim>\<open>app.py\<close> ends with it when it returns a result.
\<close>

lemma manager_execute_query_closes:
  assumes "get_connection (has_pool w) (attempts (next_env w)) = (Inr c, evs)"
    and "connected_after (next_env w)"
  shows "\<exists>pre. trace (snd (manager_execute_query stmt fetch w)) = pre @ [Close]"
  using assms
  by (auto simp: manager_execute_query_def Let_def close_if_connected_def
        split: sum.splits prod.splits)

lemma execute_query_closes_on_success:
  assumes "execute_query stmt fetch w = (Some res, w')"
  shows "\<exists>pre. trace w' = pre @ [Close]"
  using assms
  by (auto simp: execute_query_def Let_def split: sum.splits prod.splits option.splits if_splits)

text \<open>
  C7 states that every exit path of the execute operation releases the connection it
  acquired. In \<^verbatim>\<open>app.py\<close> the call \<^verbatim>\<open>connection.close()\<close> is the last statement of the
  \<^verbatim>\<open>try\<close> body and the handler does not repeat it. Here the count of books is queried
  and the statement raises: the trace of \<^verbatim>\<open>execute_query\<close> ends without a close, while
  \<^verbatim>\<open>DatabaseManager.execute_query\<close>, on the same input, rolls back and closes.
\<close>

theorem app_execute_query_leaves_connection_open:
  "execute_query count_books True (start demo_db2 stmt_fails) =
     (None, \<lparr>database = demo_db2, env = [], has_pool = True,
             trace = [PoolGet, Execute, UiError]\<rparr>) \<and>
   Close \<notin> set (trace (snd (execute_query count_books True (start demo_db2 stmt_fails)))) \<and>
   manager_execute_query count_books True (start demo_db2 stmt_fails) =
     (Inl OperationalError, \<lparr>database = demo_db2, env = [], has_pool = True,
             trace = [PoolGet, Execute, Rollback, Close]\<rparr>)"
  by (simp add: stmt_fails_def manager_execute_query_def close_if_connected_def run_defs)

end
